theory Spec2Isabelle
  imports Complex_Main
begin

section \<open>Strings and the validation helpers (convex/helpers/validation.ts)\<close>

text \<open>
  A JavaScript string is a sequence of UTF-16 code units and \<open>length\<close> counts code
  units, so a string is a list of code units, each a natural number.
\<close>

type_synonym code_unit = nat
type_synonym jsstring = "code_unit list"

text \<open>
  The characters matched by the regular expression class \<open>\s\<close> and stripped by
  \<open>String.prototype.trim\<close>: tab, line feed, vertical tab, form feed, carriage return,
  space, no-break space, U+1680, U+2000 to U+200A, U+2028, U+2029, U+202F, U+205F,
  U+3000 and U+FEFF.
\<close>

definition is_space :: "code_unit \<Rightarrow> bool" where
  "is_space c \<longleftrightarrow>
     c \<in> {9, 10, 11, 12, 13, 32, 160, 5760, 8232, 8233, 8239, 8287, 12288, 65279}
     \<or> (8192 \<le> c \<and> c \<le> 8202)"

text \<open>\<open>input.trim()\<close>: white space is dropped at both ends.\<close>

definition trim :: "jsstring \<Rightarrow> jsstring" where
  "trim s = rev (dropWhile is_space (rev (dropWhile is_space s)))"

text \<open>\<open>.replace(/\s+/g, " ")\<close>: every maximal run of white space becomes one space.\<close>

function replace_space_runs :: "jsstring \<Rightarrow> jsstring" where
  "replace_space_runs [] = []"
| "replace_space_runs (c # cs) =
     (if is_space c then 32 # replace_space_runs (dropWhile is_space cs)
      else c # replace_space_runs cs)"
  by pat_completeness auto
termination
  by (relation "measure length") (auto simp: length_dropWhile_le less_Suc_eq_le)

definition sanitizeInput :: "jsstring \<Rightarrow> jsstring" where
  "sanitizeInput input = replace_space_runs (trim input)"

definition isValidTaskTitle :: "jsstring \<Rightarrow> bool" where
  "isValidTaskTitle title \<longleftrightarrow> length title > 0 \<and> length title \<le> 200"

definition isValidTaskDescription :: "jsstring \<Rightarrow> bool" where
  "isValidTaskDescription description \<longleftrightarrow> length description \<le> 5000"

text \<open>
  A due date is a JavaScript number that the argument validator \<open>v.number()\<close> admits: a
  float64, which is a finite value, an infinity or NaN. The finite values are taken from
  the reals. \<open>Date.now()\<close> is a whole number of milliseconds, and the bounds computed
  from it below are integers.
\<close>

datatype number = Finite real | PosInfinity | NegInfinity | NaN

text \<open>
  \<open>x >= b\<close> and \<open>x <= b\<close> for a number \<open>x\<close> and an integer \<open>b\<close>: every comparison with
  NaN is false.
\<close>

fun number_ge :: "number \<Rightarrow> int \<Rightarrow> bool" where
  "number_ge (Finite r) b = (r \<ge> of_int b)"
| "number_ge PosInfinity b = True"
| "number_ge NegInfinity b = False"
| "number_ge NaN b = False"

fun number_le :: "number \<Rightarrow> int \<Rightarrow> bool" where
  "number_le (Finite r) b = (r \<le> of_int b)"
| "number_le PosInfinity b = False"
| "number_le NegInfinity b = True"
| "number_le NaN b = False"

text \<open>JavaScript truthiness of a number: 0 and NaN are falsy.\<close>

fun truthy :: "number \<Rightarrow> bool" where
  "truthy (Finite r) = (r \<noteq> 0)"
| "truthy PosInfinity = True"
| "truthy NegInfinity = True"
| "truthy NaN = False"

text \<open>
  \<open>isValidDueDate\<close> reads the clock itself (\<open>Date.now()\<close>); the reading is the first
  argument here.
\<close>

definition isValidDueDate :: "int \<Rightarrow> number \<Rightarrow> bool" where
  "isValidDueDate now dueDate \<longleftrightarrow>
     (let fiveYearsFromNow = now + 5 * 365 * 24 * 60 * 60 * 1000
      in number_ge dueDate (now - 24 * 60 * 60 * 1000) \<and> number_le dueDate fiveYearsFromNow)"

definition isValidThreadTitle :: "jsstring \<Rightarrow> bool" where
  "isValidThreadTitle title \<longleftrightarrow> length title > 0 \<and> length title \<le> 100"

definition isValidMessageContent :: "jsstring \<Rightarrow> bool" where
  "isValidMessageContent content \<longleftrightarrow> length content > 0 \<and> length content \<le> 10000"

section \<open>Constants (convex/helpers/constants.ts)\<close>

datatype task_status = Pending | InProgress | Completed

definition MAX_TASKS_PER_USER :: nat where
  "MAX_TASKS_PER_USER = 1000"

definition MAX_THREADS_PER_USER :: nat where
  "MAX_THREADS_PER_USER = 50"

definition MAX_MESSAGES_PER_THREAD :: nat where
  "MAX_MESSAGES_PER_THREAD = 1000"

fun VALID_STATUS_TRANSITIONS :: "task_status \<Rightarrow> task_status list" where
  "VALID_STATUS_TRANSITIONS Pending = [Pending, InProgress, Completed]"
| "VALID_STATUS_TRANSITIONS InProgress = [InProgress, Completed, Pending]"
| "VALID_STATUS_TRANSITIONS Completed = [Completed, Pending]"

section \<open>Documents\<close>

text \<open>
  Document ids are opaque in the source and only compared; they are numbers here. A user
  id is the string \<open>authUser._id\<close>. The three tables of the schema are records; a field
  that the schema marks optional is an \<open>option\<close>. Field names carry the table's name
  because the tables share \<open>userId\<close>, \<open>title\<close>, \<open>status\<close> and \<open>createdAt\<close>.
\<close>

type_synonym doc_id = nat
type_synonym user_id = string

datatype priority = Low | Medium | High

record task =
  task_userId :: user_id
  task_title :: jsstring
  task_description :: "jsstring option"
  task_status :: task_status
  task_priority :: "priority option"
  task_dueDate :: "number option"
  task_completedAt :: "int option"
  task_createdAt :: int
  task_updatedAt :: int

datatype thread_status = Active | Archived

record thread =
  thread_userId :: user_id
  thread_title :: "jsstring option"
  thread_status :: thread_status
  thread_createdAt :: int
  thread_updatedAt :: int

datatype role = User | Assistant

record message =
  message_threadId :: doc_id
  message_userId :: user_id
  message_role :: role
  message_content :: jsstring
  message_createdAt :: int

section \<open>Tables\<close>

text \<open>
  A table of the document store is the list of its rows, each an id and a document, in
  insertion order. An id names one row: \<open>ctx.db.get\<close> and \<open>ctx.db.patch\<close> address the
  first row that carries the id, and \<open>ctx.db.delete\<close> leaves no row with it.
\<close>

type_synonym 'a table = "(doc_id \<times> 'a) list"

definition db_get :: "'a table \<Rightarrow> doc_id \<Rightarrow> 'a option" where
  "db_get tbl i = map_of tbl i"

fun db_patch :: "doc_id \<Rightarrow> ('a \<Rightarrow> 'a) \<Rightarrow> 'a table \<Rightarrow> 'a table" where
  "db_patch i f [] = []"
| "db_patch i f (row # rows) =
     (if fst row = i then (i, f (snd row)) # rows else row # db_patch i f rows)"

definition db_delete :: "doc_id \<Rightarrow> 'a table \<Rightarrow> 'a table" where
  "db_delete i tbl = filter (\<lambda>(j, d). j \<noteq> i) tbl"

text \<open>A write to the store: the call, the table and the id of the row.\<close>

datatype table_name = TasksTable | ThreadsTable | MessagesTable

datatype db_write =
  Inserted table_name doc_id | Patched table_name doc_id | Deleted table_name doc_id

section \<open>Errors\<close>

text \<open>
  Every failure of the source is \<open>throw new Error(message)\<close>. The constructors follow the
  messages: "Not authenticated" is \<open>Unauthenticated\<close>; "Rate limit exceeded. Please try
  again in N seconds." is \<open>RateLimited N\<close>; "Task not found" and "Thread not found" are
  \<open>NotFound\<close>; every "Not authorized to ..." is \<open>Forbidden\<close>; "Maximum N ... reached" is
  \<open>QuotaExceeded\<close>; the validation messages are \<open>InvalidInput\<close> with the constraint that
  was violated. \<open>AgentFailed\<close> is an exception thrown by the AI agent, and
  \<open>NotAFunctionReference\<close> is the error "... is not a functionReference" that
  \<open>ctx.runQuery\<close> and \<open>ctx.runMutation\<close> throw.
\<close>

datatype field_constraint =
  TaskTitleLength | TaskDescriptionLength | DueDateRange | ThreadTitleLength
  | MessageContentLength

datatype error =
  Unauthenticated | RateLimited nat | InvalidInput field_constraint | NotFound
  | Forbidden | QuotaExceeded | AgentFailed | NotAFunctionReference

section \<open>The request context\<close>

text \<open>
  Every handler receives \<open>ctx\<close>. The record holds what a handler reads and writes through
  it: the three tables in insertion order, the next fresh document id, the log \<open>writes\<close>
  of the calls \<open>ctx.db.insert\<close>, \<open>ctx.db.patch\<close> and \<open>ctx.db.delete\<close> in the order in which
  they were made, and the external collaborators. The collaborators are parameters, with a log of the calls made to them:
  \<^item> \<open>authUser\<close> is what \<open>authComponent.getAuthUser(ctx)\<close> returns;
  \<^item> \<open>now\<close> is the reading of \<open>Date.now()\<close>;
  \<^item> \<open>limiter name key\<close> is what \<open>rateLimiter.limit(ctx, name, {key})\<close> answers, and
    \<open>limiter_calls\<close> lists the calls made to it, each asking for one unit of a bucket
    (the handlers modelled here use five of the configured buckets);
  \<^item> \<open>agent turns\<close> is the text \<open>taskAssistant.generate\<close> returns (\<open>None\<close> when it
    throws), and \<open>agent_calls\<close> lists the conversations sent to it;
  \<^item> \<open>toLocaleDateString\<close> renders a due date for the prompt.
  A handler returns its result together with the context it leaves behind; a throw
  leaves the context as it is at the throw (what the platform does with the writes of a
  failed mutation is outside the source and is not modelled).
\<close>

datatype bucket = CreateTaskBucket | UpdateTaskBucket | DeleteTaskBucket
  | CreateThreadBucket | SendMessageBucket

record rate_limit_status =
  ok :: bool
  retryAfter :: nat

record turn =
  turn_role :: role
  turn_content :: jsstring

record ctx =
  authUser :: "user_id option"
  now :: int
  limiter :: "bucket \<Rightarrow> user_id \<Rightarrow> rate_limit_status"
  limiter_calls :: "(bucket \<times> user_id) list"
  agent :: "turn list \<Rightarrow> jsstring option"
  agent_calls :: "turn list list"
  toLocaleDateString :: "number \<Rightarrow> jsstring"
  tasks :: "task table"
  threads :: "thread table"
  messages :: "message table"
  next_id :: doc_id
  writes :: "db_write list"

definition limit :: "ctx \<Rightarrow> bucket \<Rightarrow> user_id \<Rightarrow> rate_limit_status \<times> ctx" where
  "limit c name key =
     (limiter c name key, c\<lparr>limiter_calls := limiter_calls c @ [(name, key)]\<rparr>)"

text \<open>\<open>Math.ceil(retryAfter / 1000)\<close> on a number of milliseconds.\<close>

definition ceil_seconds :: "nat \<Rightarrow> nat" where
  "ceil_seconds ms = (ms + 999) div 1000"

definition rate_limit_error :: "rate_limit_status \<Rightarrow> error" where
  "rate_limit_error st = RateLimited (ceil_seconds (retryAfter st))"

section \<open>Database layer: tasks (convex/db/tasks.ts)\<close>

text \<open>
  convex/db/tasks.ts is not among the sources; only its callers are. Its functions are
  modelled from section 4.1 of the specification, which gives every entity store the
  operations \<open>create(fields) \<rightarrow> id\<close>, \<open>getById(id) \<rightarrow> entity | not-found\<close>,
  \<open>listByOwner(ownerId)\<close>, \<open>update(id, partialFields) \<rightarrow> updated entity\<close> and
  \<open>delete(id)\<close>, with no authorization or validation logic of its own.
\<close>

record task_fields =
  new_userId :: user_id
  new_title :: jsstring
  new_description :: "jsstring option"
  new_status :: task_status
  new_priority :: "priority option"
  new_dueDate :: "number option"

text \<open>
  Modelled from the spec: \<open>Tasks.getTaskById\<close> of the absent convex/db/tasks.ts, the
  store's \<open>getById(id) \<rightarrow> entity | not-found\<close>.
\<close>

definition getTaskById :: "ctx \<Rightarrow> doc_id \<Rightarrow> task option" where
  "getTaskById c i = db_get (tasks c) i"

text \<open>
  Modelled from the spec: \<open>Tasks.getTasksByUser\<close> of the absent convex/db/tasks.ts, the
  store's \<open>listByOwner(ownerId)\<close>, scoped by the owner key.
\<close>

definition getTasksByUser :: "ctx \<Rightarrow> user_id \<Rightarrow> task table" where
  "getTasksByUser c u = filter (\<lambda>(i, t). task_userId t = u) (tasks c)"

text \<open>
  Modelled from the spec: \<open>Tasks.createTask\<close> of the absent convex/db/tasks.ts, the
  store's \<open>create(fields) \<rightarrow> id\<close>. Section 3 gives a task its creation and last-update
  timestamps; both are stamped as \<open>createMessage\<close> of convex/db/messages.ts stamps
  \<open>createdAt\<close>. No completion time is among the fields.
\<close>

definition createTask :: "ctx \<Rightarrow> task_fields \<Rightarrow> doc_id \<times> ctx" where
  "createTask c f =
     (let doc = \<lparr>task_userId = new_userId f, task_title = new_title f,
                 task_description = new_description f, task_status = new_status f,
                 task_priority = new_priority f, task_dueDate = new_dueDate f,
                 task_completedAt = None, task_createdAt = now c, task_updatedAt = now c\<rparr>
      in (next_id c,
          c\<lparr>tasks := tasks c @ [(next_id c, doc)], next_id := Suc (next_id c),
            writes := writes c @ [Inserted TasksTable (next_id c)]\<rparr>))"

text \<open>
  The partial fields of an update. A key that is absent from the object is \<open>None\<close>. The
  key \<open>completedAt\<close> can also be present with the value \<open>undefined\<close>, which clears the
  stored field: that is \<open>Some None\<close>.
\<close>

record task_updates =
  upd_title :: "jsstring option"
  upd_description :: "jsstring option"
  upd_status :: "task_status option"
  upd_priority :: "priority option"
  upd_dueDate :: "number option"
  upd_completedAt :: "int option option"

definition no_updates :: task_updates where
  "no_updates = \<lparr>upd_title = None, upd_description = None, upd_status = None,
                  upd_priority = None, upd_dueDate = None, upd_completedAt = None\<rparr>"

text \<open>
  Modelled from the spec: \<open>Tasks.updateTask\<close> of the absent convex/db/tasks.ts, the
  store's \<open>update(id, partialFields) \<rightarrow> updated entity\<close>: \<open>patch_task\<close> overwrites the
  fields that are present and the last-update timestamp, and \<open>updateTask\<close> applies it
  to the row and returns the row it finds afterwards.
\<close>

definition patch_task :: "task_updates \<Rightarrow> int \<Rightarrow> task \<Rightarrow> task" where
  "patch_task u t0 t =
     t\<lparr>task_title := (case upd_title u of None \<Rightarrow> task_title t | Some x \<Rightarrow> x),
       task_description :=
         (case upd_description u of None \<Rightarrow> task_description t | Some x \<Rightarrow> Some x),
       task_status := (case upd_status u of None \<Rightarrow> task_status t | Some x \<Rightarrow> x),
       task_priority :=
         (case upd_priority u of None \<Rightarrow> task_priority t | Some x \<Rightarrow> Some x),
       task_dueDate := (case upd_dueDate u of None \<Rightarrow> task_dueDate t | Some x \<Rightarrow> Some x),
       task_completedAt :=
         (case upd_completedAt u of None \<Rightarrow> task_completedAt t | Some x \<Rightarrow> x),
       task_updatedAt := t0\<rparr>"

definition updateTask :: "ctx \<Rightarrow> doc_id \<Rightarrow> task_updates \<Rightarrow> task option \<times> ctx" where
  "updateTask c i u =
     (let c' = c\<lparr>tasks := db_patch i (patch_task u (now c)) (tasks c),
                 writes := writes c @ [Patched TasksTable i]\<rparr>
      in (getTaskById c' i, c'))"

text \<open>
  Modelled from the spec: \<open>Tasks.markTaskCompleted\<close> of the absent convex/db/tasks.ts,
  the store operation behind \<open>complete(id)\<close>. The specification wants \<open>completedAt\<close> set
  exactly when the status is \<open>completed\<close>, checked after every complete call, so it sets
  the status and stamps the completion time.
\<close>

definition markTaskCompleted :: "ctx \<Rightarrow> doc_id \<Rightarrow> task option \<times> ctx" where
  "markTaskCompleted c i =
     updateTask c i (no_updates\<lparr>upd_status := Some Completed,
                                upd_completedAt := Some (Some (now c))\<rparr>)"

text \<open>
  Modelled from the spec: \<open>Tasks.deleteTask\<close> of the absent convex/db/tasks.ts, the
  store's \<open>delete(id)\<close>; tasks have no dependents.
\<close>

definition deleteTask :: "ctx \<Rightarrow> doc_id \<Rightarrow> ctx" where
  "deleteTask c i =
     c\<lparr>tasks := db_delete i (tasks c), writes := writes c @ [Deleted TasksTable i]\<rparr>"

section \<open>Endpoint layer: tasks (convex/endpoints/tasks.ts)\<close>

record create_args =
  ca_title :: jsstring
  ca_description :: "jsstring option"
  ca_priority :: "priority option"
  ca_dueDate :: "number option"

text \<open>
  JavaScript truthiness of the optional arguments of \<open>create\<close>: \<open>args.description\<close> is
  falsy when it is absent or the empty string, \<open>args.dueDate\<close> when it is absent, 0 or
  NaN.
\<close>

definition truthy_string :: "jsstring option \<Rightarrow> bool" where
  "truthy_string x = (case x of None \<Rightarrow> False | Some s \<Rightarrow> s \<noteq> [])"

definition truthy_number :: "number option \<Rightarrow> bool" where
  "truthy_number x = (case x of None \<Rightarrow> False | Some n \<Rightarrow> truthy n)"

definition create :: "ctx \<Rightarrow> create_args \<Rightarrow> (error + doc_id) \<times> ctx" where
  "create c args =
     (case authUser c of
        None \<Rightarrow> (Inl Unauthenticated, c)
      | Some uid \<Rightarrow>
          (case limit c CreateTaskBucket uid of
             (rateLimitStatus, c1) \<Rightarrow>
               if \<not> ok rateLimitStatus then (Inl (rate_limit_error rateLimitStatus), c1)
               else
                 (let sanitizedTitle = sanitizeInput (ca_title args) in
                  if \<not> isValidTaskTitle sanitizedTitle
                  then (Inl (InvalidInput TaskTitleLength), c1)
                  else if truthy_string (ca_description args)
                       \<and> \<not> isValidTaskDescription (sanitizeInput (the (ca_description args)))
                  then (Inl (InvalidInput TaskDescriptionLength), c1)
                  else if truthy_number (ca_dueDate args)
                       \<and> \<not> isValidDueDate (now c1) (the (ca_dueDate args))
                  then (Inl (InvalidInput DueDateRange), c1)
                  else if length (getTasksByUser c1 uid) \<ge> MAX_TASKS_PER_USER
                  then (Inl QuotaExceeded, c1)
                  else
                    (case createTask c1
                       \<lparr>new_userId = uid, new_title = sanitizedTitle,
                        new_description =
                          (if truthy_string (ca_description args)
                           then Some (sanitizeInput (the (ca_description args))) else None),
                        new_status = Pending, new_priority = ca_priority args,
                        new_dueDate = ca_dueDate args\<rparr> of
                       (i, c2) \<Rightarrow> (Inr i, c2)))))"

definition get :: "ctx \<Rightarrow> doc_id \<Rightarrow> error + task" where
  "get c i =
     (case authUser c of
        None \<Rightarrow> Inl Unauthenticated
      | Some uid \<Rightarrow>
          (case getTaskById c i of
             None \<Rightarrow> Inl NotFound
           | Some task \<Rightarrow> if task_userId task \<noteq> uid then Inl Forbidden else Inr task))"

record update_args =
  ua_id :: doc_id
  ua_title :: "jsstring option"
  ua_description :: "jsstring option"
  ua_status :: "task_status option"
  ua_priority :: "priority option"
  ua_dueDate :: "number option"

text \<open>
  Step 4 of \<open>update\<close>: the object \<open>updates\<close> is filled field by field, and the first
  field that fails its check throws. \<open>task\<close> is the document loaded in step 3.
\<close>

definition completedAt_change :: "task_status \<Rightarrow> task_status \<Rightarrow> int \<Rightarrow> int option option" where
  "completedAt_change requested stored t0 =
     (if requested = Completed \<and> stored \<noteq> Completed then Some (Some t0)
      else if requested \<noteq> Completed \<and> stored = Completed then Some None
      else None)"

definition build_updates :: "int \<Rightarrow> task \<Rightarrow> update_args \<Rightarrow> error + task_updates" where
  "build_updates t0 task args =
     (let updates = no_updates in
      case (case ua_title args of
              None \<Rightarrow> Inr updates
            | Some title \<Rightarrow>
                (let sanitizedTitle = sanitizeInput title in
                 if \<not> isValidTaskTitle sanitizedTitle then Inl (InvalidInput TaskTitleLength)
                 else Inr (updates\<lparr>upd_title := Some sanitizedTitle\<rparr>))) of
        Inl e \<Rightarrow> Inl e
      | Inr updates \<Rightarrow>
     (case (case ua_description args of
              None \<Rightarrow> Inr updates
            | Some description \<Rightarrow>
                (let sanitizedDescription = sanitizeInput description in
                 if \<not> isValidTaskDescription sanitizedDescription
                 then Inl (InvalidInput TaskDescriptionLength)
                 else Inr (updates\<lparr>upd_description := Some sanitizedDescription\<rparr>))) of
        Inl e \<Rightarrow> Inl e
      | Inr updates \<Rightarrow>
     (let updates =
            (case ua_status args of
               None \<Rightarrow> updates
             | Some status \<Rightarrow>
                 updates\<lparr>upd_status := Some status,
                         upd_completedAt := completedAt_change status (task_status task) t0\<rparr>);
          updates =
            (case ua_priority args of
               None \<Rightarrow> updates
             | Some p \<Rightarrow> updates\<lparr>upd_priority := Some p\<rparr>)
      in case ua_dueDate args of
           None \<Rightarrow> Inr updates
         | Some dueDate \<Rightarrow>
             if \<not> isValidDueDate t0 dueDate then Inl (InvalidInput DueDateRange)
             else Inr (updates\<lparr>upd_dueDate := Some dueDate\<rparr>))))"

definition update :: "ctx \<Rightarrow> update_args \<Rightarrow> (error + task option) \<times> ctx" where
  "update c args =
     (case authUser c of
        None \<Rightarrow> (Inl Unauthenticated, c)
      | Some uid \<Rightarrow>
          (case limit c UpdateTaskBucket uid of
             (rateLimitStatus, c1) \<Rightarrow>
               if \<not> ok rateLimitStatus then (Inl (rate_limit_error rateLimitStatus), c1)
               else
                 (case getTaskById c1 (ua_id args) of
                    None \<Rightarrow> (Inl NotFound, c1)
                  | Some task \<Rightarrow>
                      if task_userId task \<noteq> uid then (Inl Forbidden, c1)
                      else
                        (case build_updates (now c1) task args of
                           Inl e \<Rightarrow> (Inl e, c1)
                         | Inr updates \<Rightarrow>
                             (case updateTask c1 (ua_id args) updates of
                                (r, c2) \<Rightarrow> (Inr r, c2))))))"

definition complete :: "ctx \<Rightarrow> doc_id \<Rightarrow> (error + task option) \<times> ctx" where
  "complete c i =
     (case authUser c of
        None \<Rightarrow> (Inl Unauthenticated, c)
      | Some uid \<Rightarrow>
          (case limit c UpdateTaskBucket uid of
             (rateLimitStatus, c1) \<Rightarrow>
               if \<not> ok rateLimitStatus then (Inl (rate_limit_error rateLimitStatus), c1)
               else
                 (case getTaskById c1 i of
                    None \<Rightarrow> (Inl NotFound, c1)
                  | Some task \<Rightarrow>
                      if task_userId task \<noteq> uid then (Inl Forbidden, c1)
                      else (case markTaskCompleted c1 i of (r, c2) \<Rightarrow> (Inr r, c2)))))"

definition remove :: "ctx \<Rightarrow> doc_id \<Rightarrow> (error + unit) \<times> ctx" where
  "remove c i =
     (case authUser c of
        None \<Rightarrow> (Inl Unauthenticated, c)
      | Some uid \<Rightarrow>
          (case limit c DeleteTaskBucket uid of
             (rateLimitStatus, c1) \<Rightarrow>
               if \<not> ok rateLimitStatus then (Inl (rate_limit_error rateLimitStatus), c1)
               else
                 (case getTaskById c1 i of
                    None \<Rightarrow> (Inl NotFound, c1)
                  | Some task \<Rightarrow>
                      if task_userId task \<noteq> uid then (Inl Forbidden, c1)
                      else (Inr (), deleteTask c1 i))))"

section \<open>Database layer: messages (convex/db/messages.ts)\<close>

definition createMessage :: "ctx \<Rightarrow> doc_id \<Rightarrow> user_id \<Rightarrow> role \<Rightarrow> jsstring \<Rightarrow> doc_id \<times> ctx" where
  "createMessage c threadId userId r content =
     (let doc = \<lparr>message_threadId = threadId, message_userId = userId, message_role = r,
                 message_content = content, message_createdAt = now c\<rparr>
      in (next_id c,
          c\<lparr>messages := messages c @ [(next_id c, doc)], next_id := Suc (next_id c),
            writes := writes c @ [Inserted MessagesTable (next_id c)]\<rparr>))"

text \<open>The index \<open>by_thread\<close>, in ascending order of creation.\<close>

definition getMessagesByThread :: "ctx \<Rightarrow> doc_id \<Rightarrow> message table" where
  "getMessagesByThread c threadId =
     filter (\<lambda>(i, m). message_threadId m = threadId) (messages c)"

text \<open>\<open>.order("desc").take(limit)\<close>, then \<open>reverse()\<close>.\<close>

definition getRecentMessagesByThread :: "ctx \<Rightarrow> doc_id \<Rightarrow> nat \<Rightarrow> message table" where
  "getRecentMessagesByThread c threadId n =
     rev (take n (rev (getMessagesByThread c threadId)))"

definition countMessagesInThread :: "ctx \<Rightarrow> doc_id \<Rightarrow> nat" where
  "countMessagesInThread c threadId = length (getMessagesByThread c threadId)"

definition deleteMessage :: "ctx \<Rightarrow> doc_id \<Rightarrow> ctx" where
  "deleteMessage c i =
     c\<lparr>messages := db_delete i (messages c),
       writes := writes c @ [Deleted MessagesTable i]\<rparr>"

text \<open>The loop \<open>for (const message of messages) await ctx.db.delete(message._id)\<close>.\<close>

fun delete_each :: "ctx \<Rightarrow> message table \<Rightarrow> ctx" where
  "delete_each c [] = c"
| "delete_each c (m # ms) = delete_each (deleteMessage c (fst m)) ms"

definition deleteMessagesByThread :: "ctx \<Rightarrow> doc_id \<Rightarrow> nat \<times> ctx" where
  "deleteMessagesByThread c threadId =
     (let found = getMessagesByThread c threadId
      in (length found, delete_each c found))"

section \<open>Database layer: threads (convex/db/threads.ts)\<close>

text \<open>
  convex/db/threads.ts is not among the sources; only its callers are. Its functions are
  modelled from section 4.1 of the specification like those of the task store. The
  three that share a name with a handler of the endpoint layer carry the prefix \<open>db_\<close>.
\<close>

text \<open>
  Modelled from the spec: \<open>Threads.getThreadById\<close> of the absent convex/db/threads.ts,
  the store's \<open>getById(id) \<rightarrow> entity | not-found\<close>.
\<close>

definition getThreadById :: "ctx \<Rightarrow> doc_id \<Rightarrow> thread option" where
  "getThreadById c i = db_get (threads c) i"

text \<open>
  Modelled from the spec: \<open>Threads.getThreadsByUser\<close> of the absent convex/db/threads.ts,
  the store's \<open>listByOwner(ownerId)\<close>.
\<close>

definition getThreadsByUser :: "ctx \<Rightarrow> user_id \<Rightarrow> thread table" where
  "getThreadsByUser c u = filter (\<lambda>(i, t). thread_userId t = u) (threads c)"

text \<open>
  Modelled from the spec: \<open>Threads.createThread\<close> of the absent convex/db/threads.ts, the
  store's \<open>create(fields) \<rightarrow> id\<close>, with the creation and update timestamps of section 3.
\<close>

definition db_createThread :: "ctx \<Rightarrow> user_id \<Rightarrow> jsstring option \<Rightarrow> thread_status
    \<Rightarrow> doc_id \<times> ctx" where
  "db_createThread c u title st =
     (let doc = \<lparr>thread_userId = u, thread_title = title, thread_status = st,
                 thread_createdAt = now c, thread_updatedAt = now c\<rparr>
      in (next_id c,
          c\<lparr>threads := threads c @ [(next_id c, doc)], next_id := Suc (next_id c),
            writes := writes c @ [Inserted ThreadsTable (next_id c)]\<rparr>))"

record thread_updates =
  tupd_title :: "jsstring option"
  tupd_status :: "thread_status option"

text \<open>
  Modelled from the spec: \<open>Threads.updateThread\<close> of the absent convex/db/threads.ts, the
  store's \<open>update(id, partialFields) \<rightarrow> updated entity\<close>.
\<close>

definition patch_thread :: "thread_updates \<Rightarrow> int \<Rightarrow> thread \<Rightarrow> thread" where
  "patch_thread u t0 t =
     t\<lparr>thread_title := (case tupd_title u of None \<Rightarrow> thread_title t | Some x \<Rightarrow> Some x),
       thread_status := (case tupd_status u of None \<Rightarrow> thread_status t | Some x \<Rightarrow> x),
       thread_updatedAt := t0\<rparr>"

definition db_updateThread :: "ctx \<Rightarrow> doc_id \<Rightarrow> thread_updates \<Rightarrow> thread option \<times> ctx" where
  "db_updateThread c i u =
     (let c' = c\<lparr>threads := db_patch i (patch_thread u (now c)) (threads c),
                 writes := writes c @ [Patched ThreadsTable i]\<rparr>
      in (getThreadById c' i, c'))"

text \<open>
  Modelled from the spec: \<open>Threads.deleteThread\<close> of the absent convex/db/threads.ts, the
  store's \<open>delete(id)\<close>.
\<close>

definition db_deleteThread :: "ctx \<Rightarrow> doc_id \<Rightarrow> ctx" where
  "db_deleteThread c i =
     c\<lparr>threads := db_delete i (threads c), writes := writes c @ [Deleted ThreadsTable i]\<rparr>"

section \<open>Endpoint layer: AI assistant (convex/endpoints/assistant.ts)\<close>

definition createThread :: "ctx \<Rightarrow> jsstring option \<Rightarrow> (error + doc_id) \<times> ctx" where
  "createThread c title =
     (case authUser c of
        None \<Rightarrow> (Inl Unauthenticated, c)
      | Some uid \<Rightarrow>
          (case limit c CreateThreadBucket uid of
             (rateLimitStatus, c1) \<Rightarrow>
               if \<not> ok rateLimitStatus then (Inl (rate_limit_error rateLimitStatus), c1)
               else if length (getThreadsByUser c1 uid) \<ge> MAX_THREADS_PER_USER
               then (Inl QuotaExceeded, c1)
               else if truthy_string title \<and> \<not> isValidThreadTitle (sanitizeInput (the title))
               then (Inl (InvalidInput ThreadTitleLength), c1)
               else
                 (case db_createThread c1 uid
                         (if truthy_string title then Some (sanitizeInput (the title)) else None)
                         Active of
                    (i, c2) \<Rightarrow> (Inr i, c2))))"

definition getThread :: "ctx \<Rightarrow> doc_id \<Rightarrow> error + thread \<times> message table" where
  "getThread c threadId =
     (case authUser c of
        None \<Rightarrow> Inl Unauthenticated
      | Some uid \<Rightarrow>
          (case getThreadById c threadId of
             None \<Rightarrow> Inl NotFound
           | Some thread \<Rightarrow>
               if thread_userId thread \<noteq> uid then Inl Forbidden
               else Inr (thread, getMessagesByThread c threadId)))"

definition updateThread :: "ctx \<Rightarrow> doc_id \<Rightarrow> jsstring option \<Rightarrow> thread_status option
    \<Rightarrow> (error + thread option) \<times> ctx" where
  "updateThread c threadId title st =
     (case authUser c of
        None \<Rightarrow> (Inl Unauthenticated, c)
      | Some uid \<Rightarrow>
          (case getThreadById c threadId of
             None \<Rightarrow> (Inl NotFound, c)
           | Some thread \<Rightarrow>
               if thread_userId thread \<noteq> uid then (Inl Forbidden, c)
               else
                 (case (case title of
                          None \<Rightarrow> Inr \<lparr>tupd_title = None, tupd_status = None\<rparr>
                        | Some t \<Rightarrow>
                            (let sanitizedTitle = sanitizeInput t in
                             if \<not> isValidThreadTitle sanitizedTitle
                             then Inl (InvalidInput ThreadTitleLength)
                             else Inr \<lparr>tupd_title = Some sanitizedTitle, tupd_status = None\<rparr>)) of
                    Inl e \<Rightarrow> (Inl e, c)
                  | Inr updates \<Rightarrow>
                      (case db_updateThread c threadId
                              (case st of None \<Rightarrow> updates
                               | Some s \<Rightarrow> updates\<lparr>tupd_status := Some s\<rparr>) of
                         (r, c1) \<Rightarrow> (Inr r, c1)))))"

text \<open>
  \<open>deleteThread\<close> in its two steps: \<open>deleteThread_messages\<close> is the context after
  \<open>Messages.deleteMessagesByThread\<close> has returned, and the thread is deleted from it.
\<close>

definition deleteThread_messages :: "ctx \<Rightarrow> doc_id \<Rightarrow> ctx" where
  "deleteThread_messages c threadId = snd (deleteMessagesByThread c threadId)"

definition deleteThread :: "ctx \<Rightarrow> doc_id \<Rightarrow> (error + unit) \<times> ctx" where
  "deleteThread c threadId =
     (case authUser c of
        None \<Rightarrow> (Inl Unauthenticated, c)
      | Some uid \<Rightarrow>
          (case getThreadById c threadId of
             None \<Rightarrow> (Inl NotFound, c)
           | Some thread \<Rightarrow>
               if thread_userId thread \<noteq> uid then (Inl Forbidden, c)
               else (Inr (), db_deleteThread (deleteThread_messages c threadId) threadId)))"

text \<open>
  The prompt of \<open>sendMessage\<close>. \<open>js\<close> reads an ASCII literal as code units; a line feed
  is code unit 10.
\<close>

definition js :: "string \<Rightarrow> jsstring" where
  "js s = map of_char s"

fun status_text :: "task_status \<Rightarrow> jsstring" where
  "status_text Pending = js ''pending''"
| "status_text InProgress = js ''in_progress''"
| "status_text Completed = js ''completed''"

fun priority_text :: "priority \<Rightarrow> jsstring" where
  "priority_text Low = js ''low''"
| "priority_text Medium = js ''medium''"
| "priority_text High = js ''high''"

fun join_lines :: "jsstring list \<Rightarrow> jsstring" where
  "join_lines [] = []"
| "join_lines [l] = l"
| "join_lines (l # ls) = l @ [10] @ join_lines ls"

definition task_line :: "ctx \<Rightarrow> task \<Rightarrow> jsstring" where
  "task_line c t =
     js ''- ['' @ status_text (task_status t) @ js ''] '' @ task_title t
     @ (case task_priority t of
          None \<Rightarrow> []
        | Some p \<Rightarrow> js '' ('' @ priority_text p @ js '' priority)'')
     @ (if truthy_number (task_dueDate t)
        then js '' (due: '' @ toLocaleDateString c (the (task_dueDate t)) @ js '')''
        else [])"

definition taskContext :: "ctx \<Rightarrow> task table \<Rightarrow> jsstring" where
  "taskContext c ts =
     (if length ts > 0
      then [10, 10] @ js ''Current user tasks:'' @ [10]
           @ join_lines (map (\<lambda>(i, t). task_line c t) ts)
      else [10, 10] @ js ''The user has no tasks yet.'')"

record send_result =
  userMessageId :: doc_id
  assistantMessageId :: doc_id
  response :: jsstring

text \<open>\<open>taskAssistant.generate\<close>: the conversation is logged, the answer is the agent's.\<close>

definition generate :: "ctx \<Rightarrow> turn list \<Rightarrow> jsstring option \<times> ctx" where
  "generate c turns = (agent c turns, c\<lparr>agent_calls := agent_calls c @ [turns]\<rparr>)"

text \<open>
  \<open>ctx.runQuery\<close> and \<open>ctx.runMutation\<close> of an action take a function reference, a member
  of the generated \<open>api\<close> or \<open>internal\<close> object, and run the function it names. Given any
  other value they throw "... is not a functionReference". The five \<open>internal...\<close>
  constants of the file are the values \<open>query({...})\<close> and \<open>mutation({...})\<close> return, that
  is registered functions, bound to unexported constants: they are not references.
\<close>

datatype 'f callable = FunctionReference 'f | RegisteredFunction 'f

definition runQuery :: "'f callable \<Rightarrow> error + 'f" where
  "runQuery f =
     (case f of FunctionReference h \<Rightarrow> Inr h | RegisteredFunction h \<Rightarrow> Inl NotAFunctionReference)"

definition runMutation :: "'f callable \<Rightarrow> error + 'f" where
  "runMutation f =
     (case f of FunctionReference h \<Rightarrow> Inr h | RegisteredFunction h \<Rightarrow> Inl NotAFunctionReference)"

definition internalGetThreadById :: "(ctx \<Rightarrow> doc_id \<Rightarrow> thread option) callable" where
  "internalGetThreadById = RegisteredFunction (\<lambda>c threadId. getThreadById c threadId)"

definition internalCountMessagesInThread :: "(ctx \<Rightarrow> doc_id \<Rightarrow> nat) callable" where
  "internalCountMessagesInThread =
     RegisteredFunction (\<lambda>c threadId. countMessagesInThread c threadId)"

definition internalCreateMessage ::
    "(ctx \<Rightarrow> doc_id \<Rightarrow> user_id \<Rightarrow> role \<Rightarrow> jsstring \<Rightarrow> doc_id \<times> ctx) callable" where
  "internalCreateMessage =
     RegisteredFunction (\<lambda>c threadId userId r content. createMessage c threadId userId r content)"

definition internalGetTasksByUser :: "(ctx \<Rightarrow> user_id \<Rightarrow> task table) callable" where
  "internalGetTasksByUser = RegisteredFunction (\<lambda>c userId. getTasksByUser c userId)"

definition internalGetRecentMessagesByThread ::
    "(ctx \<Rightarrow> doc_id \<Rightarrow> nat \<Rightarrow> message table) callable" where
  "internalGetRecentMessagesByThread =
     RegisteredFunction (\<lambda>c threadId n. getRecentMessagesByThread c threadId n)"

definition sendMessage :: "ctx \<Rightarrow> doc_id \<Rightarrow> jsstring \<Rightarrow> (error + send_result) \<times> ctx" where
  "sendMessage c threadId content =
     (case authUser c of
        None \<Rightarrow> (Inl Unauthenticated, c)
      | Some uid \<Rightarrow>
     (case limit c SendMessageBucket uid of
        (rateLimitStatus, c1) \<Rightarrow>
     if \<not> ok rateLimitStatus then (Inl (rate_limit_error rateLimitStatus), c1)
     else
     (let sanitizedContent = sanitizeInput content in
      if \<not> isValidMessageContent sanitizedContent
      then (Inl (InvalidInput MessageContentLength), c1)
      else
     (case runQuery internalGetThreadById of
        Inl e \<Rightarrow> (Inl e, c1)
      | Inr getThreadById_fn \<Rightarrow>
     (case getThreadById_fn c1 threadId of
        None \<Rightarrow> (Inl NotFound, c1)
      | Some thread \<Rightarrow>
     if thread_userId thread \<noteq> uid then (Inl Forbidden, c1)
     else
     (case runQuery internalCountMessagesInThread of
        Inl e \<Rightarrow> (Inl e, c1)
      | Inr countMessagesInThread_fn \<Rightarrow>
     if countMessagesInThread_fn c1 threadId \<ge> MAX_MESSAGES_PER_THREAD
     then (Inl QuotaExceeded, c1)
     else
     (case runMutation internalCreateMessage of
        Inl e \<Rightarrow> (Inl e, c1)
      | Inr createMessage_fn \<Rightarrow>
     (case createMessage_fn c1 threadId uid User sanitizedContent of
        (userMsgId, c2) \<Rightarrow>
     (case runQuery internalGetTasksByUser of
        Inl e \<Rightarrow> (Inl e, c2)
      | Inr getTasksByUser_fn \<Rightarrow>
     (let context = taskContext c2 (getTasksByUser_fn c2 uid) in
      case runQuery internalGetRecentMessagesByThread of
        Inl e \<Rightarrow> (Inl e, c2)
      | Inr getRecentMessagesByThread_fn \<Rightarrow>
     (let previousMessages = getRecentMessagesByThread_fn c2 threadId 10;
          conversationHistory =
            map (\<lambda>(i, m). \<lparr>turn_role = message_role m, turn_content = message_content m\<rparr>)
              (filter (\<lambda>(i, m). i \<noteq> userMsgId) previousMessages)
      in case generate c2
                (conversationHistory
                 @ [\<lparr>turn_role = User, turn_content = sanitizedContent @ context\<rparr>]) of
           (None, c3) \<Rightarrow> (Inl AgentFailed, c3)
         | (Some reply, c3) \<Rightarrow>
     (case runMutation internalCreateMessage of
        Inl e \<Rightarrow> (Inl e, c3)
      | Inr createReply_fn \<Rightarrow>
     (case createReply_fn c3 threadId uid Assistant reply of
        (assistantMsgId, c4) \<Rightarrow>
          (Inr \<lparr>userMessageId = userMsgId, assistantMessageId = assistantMsgId,
                response = reply\<rparr>, c4))))))))))))))"

section \<open>The completion invariant and sample data\<close>

text \<open>A task is consistent when \<open>completedAt\<close> is set exactly if its status is completed.\<close>

definition completedAt_iff_completed :: "task \<Rightarrow> bool" where
  "completedAt_iff_completed t \<longleftrightarrow> (task_completedAt t \<noteq> None) = (task_status t = Completed)"

definition tasks_consistent :: "ctx \<Rightarrow> bool" where
  "tasks_consistent c \<longleftrightarrow> list_all (\<lambda>(i, t). completedAt_iff_completed t) (tasks c)"

text \<open>The partial fields \<open>markTaskCompleted\<close> writes.\<close>

definition completion :: "int \<Rightarrow> task_updates" where
  "completion t0 = no_updates\<lparr>upd_status := Some Completed, upd_completedAt := Some (Some t0)\<rparr>"

text \<open>
  A small store for the concrete instances below: Alice owns a pending task (id 1), a
  completed task (id 2) and a thread (id 4) with two messages; Bob owns a task (id 3)
  and a thread (id 5). Alice is the caller and the rate limiter admits every call.
\<close>

definition alice :: user_id where
  "alice = ''alice''"

definition bob :: user_id where
  "bob = ''bob''"

definition admit :: rate_limit_status where
  "admit = \<lparr>ok = True, retryAfter = 0\<rparr>"

definition refuse :: rate_limit_status where
  "refuse = \<lparr>ok = False, retryAfter = 1500\<rparr>"

definition sample_task :: "user_id \<Rightarrow> task_status \<Rightarrow> int option \<Rightarrow> task" where
  "sample_task u st done =
     \<lparr>task_userId = u, task_title = js ''Write report'', task_description = None,
      task_status = st, task_priority = Some High, task_dueDate = None,
      task_completedAt = done, task_createdAt = 1000, task_updatedAt = 1000\<rparr>"

definition sample_thread :: "user_id \<Rightarrow> thread" where
  "sample_thread u =
     \<lparr>thread_userId = u, thread_title = Some (js ''Planning''), thread_status = Active,
      thread_createdAt = 1000, thread_updatedAt = 1000\<rparr>"

definition sample_message :: "doc_id \<Rightarrow> role \<Rightarrow> message" where
  "sample_message th r =
     \<lparr>message_threadId = th, message_userId = alice, message_role = r,
      message_content = js ''hello'', message_createdAt = 1000\<rparr>"

definition sample_ctx :: ctx where
  "sample_ctx =
     \<lparr>authUser = Some alice, now = 5000, limiter = (\<lambda>b u. admit), limiter_calls = [],
      agent = (\<lambda>turns. Some (js ''done'')), agent_calls = [],
      toLocaleDateString = (\<lambda>d. js ''1/1/2030''),
      tasks = [(1, sample_task alice Pending None),
               (2, sample_task alice Completed (Some 2000)),
               (3, sample_task bob Pending None)],
      threads = [(4, sample_thread alice), (5, sample_thread bob)],
      messages = [(6, sample_message 4 User), (7, sample_message 4 Assistant)],
      next_id = 8, writes = []\<rparr>"

definition status_update :: "doc_id \<Rightarrow> task_status \<Rightarrow> update_args" where
  "status_update i st =
     \<lparr>ua_id = i, ua_title = None, ua_description = None, ua_status = Some st,
      ua_priority = None, ua_dueDate = None\<rparr>"

definition titled :: "jsstring \<Rightarrow> create_args" where
  "titled t = \<lparr>ca_title = t, ca_description = None, ca_priority = None, ca_dueDate = None\<rparr>"

definition retitle :: "doc_id \<Rightarrow> jsstring \<Rightarrow> update_args" where
  "retitle i t =
     \<lparr>ua_id = i, ua_title = Some t, ua_description = None, ua_status = None,
      ua_priority = None, ua_dueDate = None\<rparr>"

definition due :: "number \<Rightarrow> create_args" where
  "due d = \<lparr>ca_title = js ''Plan'', ca_description = None, ca_priority = None,
            ca_dueDate = Some d\<rparr>"

definition postpone :: "doc_id \<Rightarrow> number \<Rightarrow> update_args" where
  "postpone i d =
     \<lparr>ua_id = i, ua_title = None, ua_description = None, ua_status = None,
      ua_priority = None, ua_dueDate = Some d\<rparr>"

text \<open>Alice's thread 4 holding 1000 messages, and a rate limiter that refuses every call.\<close>

definition full_ctx :: ctx where
  "full_ctx =
     sample_ctx\<lparr>messages := map (\<lambda>i. (100 + i, sample_message 4 User)) [0..<1000]\<rparr>"

definition limited_ctx :: ctx where
  "limited_ctx = sample_ctx\<lparr>limiter := (\<lambda>b u. refuse)\<rparr>"

section \<open>Facts about the tables, the limiter and the handlers\<close>

lemmas sample_defs = sample_ctx_def sample_task_def sample_thread_def sample_message_def
  alice_def bob_def admit_def refuse_def status_update_def titled_def retitle_def

lemmas create_eval_defs = create_def limit_def createTask_def Let_def sanitizeInput_def trim_def
  js_def is_space_def isValidTaskTitle_def isValidTaskDescription_def isValidDueDate_def
  truthy_string_def truthy_number_def getTasksByUser_def MAX_TASKS_PER_USER_def

lemmas task_store_defs = getTaskById_def db_get_def updateTask_def patch_task_def
  no_updates_def completedAt_change_def build_updates_def Let_def

lemma db_get_patch:
  "db_get (db_patch i f tbl) j = (if j = i then map_option f (db_get tbl i) else db_get tbl j)"
  by (induction tbl) (auto simp: db_get_def)

lemma db_get_delete: "db_get (db_delete i tbl) i = None"
  by (induction tbl) (auto simp: db_get_def db_delete_def)

lemma list_all_patch:
  assumes "list_all (\<lambda>(j, d). P d) tbl"
    and "\<And>d. db_get tbl i = Some d \<Longrightarrow> P d \<Longrightarrow> P (f d)"
  shows "list_all (\<lambda>(j, d). P d) (db_patch i f tbl)"
  using assms by (induction tbl) (auto simp: db_get_def)

lemma limit_fields [simp]:
  "fst (limit c b u) = limiter c b u"
  "tasks (snd (limit c b u)) = tasks c"
  "threads (snd (limit c b u)) = threads c"
  "messages (snd (limit c b u)) = messages c"
  "now (snd (limit c b u)) = now c"
  "authUser (snd (limit c b u)) = authUser c"
  "agent_calls (snd (limit c b u)) = agent_calls c"
  "next_id (snd (limit c b u)) = next_id c"
  "limiter_calls (snd (limit c b u)) = limiter_calls c @ [(b, u)]"
  "writes (snd (limit c b u)) = writes c"
  by (simp_all add: limit_def)

lemma getTaskById_limit [simp]: "getTaskById (snd (limit c b u)) i = getTaskById c i"
  by (simp add: getTaskById_def)

lemma getThreadById_limit [simp]: "getThreadById (snd (limit c b u)) i = getThreadById c i"
  by (simp add: getThreadById_def)

lemma build_updates_status:
  "build_updates t0 task args = Inr u \<Longrightarrow> upd_status u = ua_status args"
  by (auto simp: build_updates_def no_updates_def Let_def split: option.splits if_splits sum.splits)

lemma build_updates_completedAt:
  "build_updates t0 task args = Inr u \<Longrightarrow>
   upd_completedAt u = (case ua_status args of None \<Rightarrow> None
                        | Some s \<Rightarrow> completedAt_change s (task_status task) t0)"
  by (auto simp: build_updates_def no_updates_def Let_def split: option.splits if_splits sum.splits)

text \<open>The handlers with the rate limiter's answer and effect written out.\<close>

lemma update_cases:
  "update c a =
     (case authUser c of
        None \<Rightarrow> (Inl Unauthenticated, c)
      | Some uid \<Rightarrow>
          if \<not> ok (limiter c UpdateTaskBucket uid)
          then (Inl (rate_limit_error (limiter c UpdateTaskBucket uid)),
                snd (limit c UpdateTaskBucket uid))
          else
            (case getTaskById c (ua_id a) of
               None \<Rightarrow> (Inl NotFound, snd (limit c UpdateTaskBucket uid))
             | Some task \<Rightarrow>
                 if task_userId task \<noteq> uid
                 then (Inl Forbidden, snd (limit c UpdateTaskBucket uid))
                 else
                   (case build_updates (now c) task a of
                      Inl e \<Rightarrow> (Inl e, snd (limit c UpdateTaskBucket uid))
                    | Inr updates \<Rightarrow>
                        (Inr (fst (updateTask (snd (limit c UpdateTaskBucket uid)) (ua_id a) updates)),
                         snd (updateTask (snd (limit c UpdateTaskBucket uid)) (ua_id a) updates)))))"
  unfolding update_def
  by (simp add: split_beta split: option.split sum.split)

lemma complete_cases:
  "complete c i =
     (case authUser c of
        None \<Rightarrow> (Inl Unauthenticated, c)
      | Some uid \<Rightarrow>
          if \<not> ok (limiter c UpdateTaskBucket uid)
          then (Inl (rate_limit_error (limiter c UpdateTaskBucket uid)),
                snd (limit c UpdateTaskBucket uid))
          else
            (case getTaskById c i of
               None \<Rightarrow> (Inl NotFound, snd (limit c UpdateTaskBucket uid))
             | Some task \<Rightarrow>
                 if task_userId task \<noteq> uid
                 then (Inl Forbidden, snd (limit c UpdateTaskBucket uid))
                 else (Inr (fst (markTaskCompleted (snd (limit c UpdateTaskBucket uid)) i)),
                       snd (markTaskCompleted (snd (limit c UpdateTaskBucket uid)) i))))"
  unfolding complete_def
  by (simp add: split_beta split: option.split)

subsection \<open>What a task mutation leaves in the table\<close>

lemma patch_task_consistent:
  assumes "build_updates t0 t args = Inr u" "completedAt_iff_completed t"
  shows "completedAt_iff_completed (patch_task u t1 t)"
  using assms build_updates_status[OF assms(1)] build_updates_completedAt[OF assms(1)]
  by (auto simp: completedAt_iff_completed_def patch_task_def completedAt_change_def
      split: option.splits if_splits)

lemma update_tasks:
  "tasks (snd (update c a)) = tasks c \<or>
   (\<exists>t u. getTaskById c (ua_id a) = Some t \<and> build_updates (now c) t a = Inr u
      \<and> tasks (snd (update c a)) = db_patch (ua_id a) (patch_task u (now c)) (tasks c))"
  by (simp add: update_cases updateTask_def Let_def split: option.split sum.split)

lemma update_consistent:
  assumes "tasks_consistent c"
  shows "tasks_consistent (snd (update c a))"
  using update_tasks [of c a]
proof
  assume "tasks (snd (update c a)) = tasks c"
  with assms show ?thesis by (simp add: tasks_consistent_def)
next
  assume "\<exists>t u. getTaskById c (ua_id a) = Some t \<and> build_updates (now c) t a = Inr u
      \<and> tasks (snd (update c a)) = db_patch (ua_id a) (patch_task u (now c)) (tasks c)"
  then obtain t u where t: "getTaskById c (ua_id a) = Some t"
    and u: "build_updates (now c) t a = Inr u"
    and eq: "tasks (snd (update c a)) = db_patch (ua_id a) (patch_task u (now c)) (tasks c)"
    by blast
  have "list_all (\<lambda>(j, d). completedAt_iff_completed d)
          (db_patch (ua_id a) (patch_task u (now c)) (tasks c))"
  proof (rule list_all_patch)
    show "list_all (\<lambda>(j, d). completedAt_iff_completed d) (tasks c)"
      using assms by (simp add: tasks_consistent_def)
  next
    fix d
    assume "db_get (tasks c) (ua_id a) = Some d" and "completedAt_iff_completed d"
    with t u show "completedAt_iff_completed (patch_task u (now c) d)"
      by (simp add: getTaskById_def patch_task_consistent)
  qed
  with eq show ?thesis by (simp add: tasks_consistent_def)
qed

lemma complete_tasks:
  "tasks (snd (complete c i)) = tasks c \<or>
   tasks (snd (complete c i)) = db_patch i (patch_task (completion (now c)) (now c)) (tasks c)"
  by (simp add: complete_cases markTaskCompleted_def updateTask_def completion_def Let_def
      split: option.split)

lemma patch_completion_consistent:
  "completedAt_iff_completed (patch_task (completion t0) t1 d)"
  by (simp add: completedAt_iff_completed_def patch_task_def completion_def no_updates_def)

lemma complete_consistent:
  assumes "tasks_consistent c"
  shows "tasks_consistent (snd (complete c i))"
  using complete_tasks [of c i]
proof
  assume "tasks (snd (complete c i)) = tasks c"
  with assms show ?thesis by (simp add: tasks_consistent_def)
next
  assume eq: "tasks (snd (complete c i))
      = db_patch i (patch_task (completion (now c)) (now c)) (tasks c)"
  have "list_all (\<lambda>(j, d). completedAt_iff_completed d)
          (db_patch i (patch_task (completion (now c)) (now c)) (tasks c))"
    using assms
    by (intro list_all_patch) (simp_all add: tasks_consistent_def patch_completion_consistent)
  with eq show ?thesis by (simp add: tasks_consistent_def)
qed

lemma create_tasks:
  "tasks (snd (create c a)) = tasks c \<or>
   (\<exists>i t. fst (create c a) = Inr i \<and> tasks (snd (create c a)) = tasks c @ [(i, t)]
      \<and> task_status t = Pending \<and> task_completedAt t = None)"
  by (simp add: create_def limit_def createTask_def Let_def split: option.split)

lemma create_consistent:
  assumes "tasks_consistent c"
  shows "tasks_consistent (snd (create c a))"
  using create_tasks [of c a] assms
  by (auto simp: tasks_consistent_def completedAt_iff_completed_def)

lemma remove_consistent:
  assumes "tasks_consistent c"
  shows "tasks_consistent (snd (remove c i))"
  using assms
  by (auto simp: remove_def limit_def deleteTask_def db_delete_def tasks_consistent_def
      list_all_iff split: option.split)

lemma update_success:
  assumes "update c a = (Inr r, c')"
  shows "\<exists>uid t u. authUser c = Some uid \<and> ok (limiter c UpdateTaskBucket uid)
      \<and> getTaskById c (ua_id a) = Some t \<and> task_userId t = uid
      \<and> build_updates (now c) t a = Inr u
      \<and> r = Some (patch_task u (now c) t)
      \<and> getTaskById c' (ua_id a) = Some (patch_task u (now c) t)"
  using assms
  by (auto simp: update_cases updateTask_def Let_def getTaskById_def db_get_patch
      split: option.splits sum.splits if_splits)

lemma update_completedAt:
  assumes "update c a = (Inr r, c')" "ua_status a = Some st" "getTaskById c (ua_id a) = Some t"
  shows "\<exists>t'. r = Some t' \<and> getTaskById c' (ua_id a) = Some t' \<and> task_status t' = st
      \<and> task_completedAt t' =
          (if st = Completed \<and> task_status t \<noteq> Completed then Some (now c)
           else if st \<noteq> Completed \<and> task_status t = Completed then None
           else task_completedAt t)"
proof -
  from update_success [OF assms(1)] assms(3)
  obtain u where u: "build_updates (now c) t a = Inr u"
    and r: "r = Some (patch_task u (now c) t)"
    and g: "getTaskById c' (ua_id a) = Some (patch_task u (now c) t)"
    by auto
  have "upd_status u = Some st"
    using build_updates_status [OF u] assms(2) by simp
  moreover have "upd_completedAt u = completedAt_change st (task_status t) (now c)"
    using build_updates_completedAt [OF u] assms(2) by simp
  ultimately show ?thesis
    using r g by (simp add: patch_task_def completedAt_change_def)
qed

lemma complete_success:
  assumes "complete c i = (Inr r, c')"
  shows "\<exists>t'. r = Some t' \<and> getTaskById c' i = Some t' \<and> task_status t' = Completed
      \<and> task_completedAt t' = Some (now c)"
  using assms
  by (auto simp: complete_cases markTaskCompleted_def updateTask_def Let_def getTaskById_def
      db_get_patch patch_task_def no_updates_def
      split: option.splits if_splits)

subsection \<open>Sanitizing\<close>

lemma dropWhile_none: "\<forall>c\<in>set s. \<not> P c \<Longrightarrow> dropWhile P s = s"
  by (cases s) auto

lemma replace_space_runs_id: "\<forall>c\<in>set s. \<not> is_space c \<Longrightarrow> replace_space_runs s = s"
  by (induction s) auto

lemma trim_id: "\<forall>c\<in>set s. \<not> is_space c \<Longrightarrow> trim s = s"
  by (simp add: trim_def dropWhile_none)

lemma sanitizeInput_id: "\<forall>c\<in>set s. \<not> is_space c \<Longrightarrow> sanitizeInput s = s"
  by (simp add: sanitizeInput_def trim_id replace_space_runs_id)

lemma sanitizeInput_leading: "is_space c \<Longrightarrow> sanitizeInput (c # s) = sanitizeInput s"
  by (simp add: sanitizeInput_def trim_def)

subsection \<open>Creating and updating a task\<close>

lemma db_get_append_fresh:
  "i \<notin> fst ` set tbl \<Longrightarrow> db_get (tbl @ [(i, d)]) i = Some d"
  by (induction tbl) (auto simp: db_get_def)

lemma getTasksByUser_limit [simp]: "getTasksByUser (snd (limit c b u)) v = getTasksByUser c v"
  by (simp add: getTasksByUser_def)

lemma create_cases:
  "create c a =
     (case authUser c of
        None \<Rightarrow> (Inl Unauthenticated, c)
      | Some uid \<Rightarrow>
          if \<not> ok (limiter c CreateTaskBucket uid)
          then (Inl (rate_limit_error (limiter c CreateTaskBucket uid)),
                snd (limit c CreateTaskBucket uid))
          else if \<not> isValidTaskTitle (sanitizeInput (ca_title a))
          then (Inl (InvalidInput TaskTitleLength), snd (limit c CreateTaskBucket uid))
          else if truthy_string (ca_description a)
               \<and> \<not> isValidTaskDescription (sanitizeInput (the (ca_description a)))
          then (Inl (InvalidInput TaskDescriptionLength), snd (limit c CreateTaskBucket uid))
          else if truthy_number (ca_dueDate a) \<and> \<not> isValidDueDate (now c) (the (ca_dueDate a))
          then (Inl (InvalidInput DueDateRange), snd (limit c CreateTaskBucket uid))
          else if length (getTasksByUser c uid) \<ge> MAX_TASKS_PER_USER
          then (Inl QuotaExceeded, snd (limit c CreateTaskBucket uid))
          else (Inr (next_id c),
                snd (createTask (snd (limit c CreateTaskBucket uid))
                  \<lparr>new_userId = uid, new_title = sanitizeInput (ca_title a),
                   new_description =
                     (if truthy_string (ca_description a)
                      then Some (sanitizeInput (the (ca_description a))) else None),
                   new_status = Pending, new_priority = ca_priority a,
                   new_dueDate = ca_dueDate a\<rparr>)))"
  unfolding create_def
  by (auto simp: split_beta Let_def createTask_def split: option.split)

lemma create_success:
  assumes "create c a = (Inr i, c')"
  shows "\<exists>t. i = next_id c \<and> tasks c' = tasks c @ [(i, t)] \<and> task_status t = Pending
      \<and> task_completedAt t = None"
  using assms
  by (auto simp: create_def limit_def createTask_def Let_def split: option.splits if_splits)

lemma remove_cases:
  "remove c i =
     (case authUser c of
        None \<Rightarrow> (Inl Unauthenticated, c)
      | Some uid \<Rightarrow>
          if \<not> ok (limiter c DeleteTaskBucket uid)
          then (Inl (rate_limit_error (limiter c DeleteTaskBucket uid)),
                snd (limit c DeleteTaskBucket uid))
          else
            (case getTaskById c i of
               None \<Rightarrow> (Inl NotFound, snd (limit c DeleteTaskBucket uid))
             | Some task \<Rightarrow>
                 if task_userId task \<noteq> uid
                 then (Inl Forbidden, snd (limit c DeleteTaskBucket uid))
                 else (Inr (), deleteTask (snd (limit c DeleteTaskBucket uid)) i)))"
  unfolding remove_def
  by (simp add: split_beta split: option.split)

lemma build_updates_title_invalid:
  "ua_title a = Some title \<Longrightarrow> \<not> isValidTaskTitle (sanitizeInput title)
   \<Longrightarrow> build_updates t0 t a = Inl (InvalidInput TaskTitleLength)"
  by (simp add: build_updates_def Let_def)

lemma build_updates_valid:
  assumes "\<forall>x. ua_title a = Some x \<longrightarrow> isValidTaskTitle (sanitizeInput x)"
    and "\<forall>d. ua_description a = Some d \<longrightarrow> isValidTaskDescription (sanitizeInput d)"
    and "\<forall>d. ua_dueDate a = Some d \<longrightarrow> isValidDueDate t0 d"
  shows "\<exists>u. build_updates t0 t a = Inr u \<and> upd_title u = map_option sanitizeInput (ua_title a)
     \<and> upd_dueDate u = ua_dueDate a"
  using assms
  by (simp add: build_updates_def Let_def no_updates_def split: option.split)

lemma build_updates_dueDate_invalid:
  "ua_dueDate a = Some d \<Longrightarrow> \<not> isValidDueDate t0 d
   \<Longrightarrow> \<exists>k. build_updates t0 t a = Inl (InvalidInput k)"
  by (simp add: build_updates_def Let_def split: option.split)

lemma build_updates_dueDate_error:
  "build_updates t0 t a = Inl (InvalidInput DueDateRange)
   \<Longrightarrow> \<exists>d. ua_dueDate a = Some d \<and> \<not> isValidDueDate t0 d"
  by (simp add: build_updates_def Let_def split: option.splits if_splits)

lemma update_owned:
  assumes "authUser c = Some uid" "ok (limiter c UpdateTaskBucket uid)"
    "getTaskById c (ua_id a) = Some t" "task_userId t = uid"
  shows "fst (update c a) =
           (case build_updates (now c) t a of
              Inl e \<Rightarrow> Inl e
            | Inr u \<Rightarrow> Inr (Some (patch_task u (now c) t)))"
  using assms
  by (simp add: update_cases updateTask_def Let_def getTaskById_def db_get_patch split: sum.split)

lemma update_invalid_input:
  assumes "fst (update c a) = Inl (InvalidInput k)"
  shows "\<exists>uid t. authUser c = Some uid \<and> ok (limiter c UpdateTaskBucket uid)
      \<and> getTaskById c (ua_id a) = Some t \<and> task_userId t = uid
      \<and> build_updates (now c) t a = Inl (InvalidInput k)"
  using assms
  by (auto simp: update_cases rate_limit_error_def split: option.splits if_splits sum.splits)

subsection \<open>Deleting the messages of a thread\<close>

lemma delete_each_messages:
  "messages (delete_each c ms) = filter (\<lambda>(j, m). j \<notin> fst ` set ms) (messages c)"
proof (induction ms arbitrary: c)
  case Nil
  show ?case by simp
next
  case (Cons m ms)
  have "messages (delete_each (deleteMessage c (fst m)) ms)
      = filter (\<lambda>(j, d). j \<notin> fst ` set ms) (filter (\<lambda>(j, d). j \<noteq> fst m) (messages c))"
    by (simp add: Cons.IH deleteMessage_def db_delete_def)
  also have "\<dots> = filter (\<lambda>(j, d). j \<notin> fst ` set (m # ms)) (messages c)"
    by (auto intro: filter_cong)
  finally show ?case by simp
qed

lemma delete_each_threads: "threads (delete_each c ms) = threads c"
  by (induction ms arbitrary: c) (simp_all add: deleteMessage_def)

lemma delete_each_limiter_calls: "limiter_calls (delete_each c ms) = limiter_calls c"
  by (induction ms arbitrary: c) (simp_all add: deleteMessage_def)

lemma delete_each_writes:
  "writes (delete_each c ms) = writes c @ map (\<lambda>(i, m). Deleted MessagesTable i) ms"
  by (induction ms arbitrary: c) (simp_all add: deleteMessage_def split_beta)

lemma no_messages_left:
  "getMessagesByThread (deleteThread_messages c tid) tid = []"
proof -
  have "\<And>j m. (j, m) \<in> set (messages c) \<Longrightarrow> message_threadId m = tid
      \<Longrightarrow> j \<in> fst ` set (getMessagesByThread c tid)"
    by (force simp: getMessagesByThread_def)
  then show ?thesis
    by (auto simp: getMessagesByThread_def deleteThread_messages_def deleteMessagesByThread_def
        Let_def delete_each_messages filter_empty_conv)
qed

lemma others_kept:
  assumes "distinct (map fst (messages c))"
  shows "messages (deleteThread_messages c tid)
      = filter (\<lambda>(j, m). message_threadId m \<noteq> tid) (messages c)"
proof -
  have "j \<in> fst ` set (getMessagesByThread c tid) \<longleftrightarrow> message_threadId m = tid"
    if "(j, m) \<in> set (messages c)" for j m
  proof
    assume "j \<in> fst ` set (getMessagesByThread c tid)"
    then obtain m' where m': "(j, m') \<in> set (messages c)" "message_threadId m' = tid"
      by (auto simp: getMessagesByThread_def)
    from assms that m'(1) have "m' = m"
      by (meson eq_key_imp_eq_value)
    with m'(2) show "message_threadId m = tid" by simp
  next
    assume "message_threadId m = tid"
    with that show "j \<in> fst ` set (getMessagesByThread c tid)"
      by (force simp: getMessagesByThread_def)
  qed
  then show ?thesis
    by (auto simp: deleteThread_messages_def deleteMessagesByThread_def Let_def
        delete_each_messages intro!: filter_cong)
qed

subsection \<open>Sending a message\<close>

text \<open>
  Every call of \<open>sendMessage\<close> that passes the first three steps ends at the first
  \<open>ctx.runQuery\<close>.
\<close>

lemma sendMessage_cases:
  "sendMessage c tid content =
     (case authUser c of
        None \<Rightarrow> (Inl Unauthenticated, c)
      | Some uid \<Rightarrow>
          if \<not> ok (limiter c SendMessageBucket uid)
          then (Inl (rate_limit_error (limiter c SendMessageBucket uid)),
                snd (limit c SendMessageBucket uid))
          else if \<not> isValidMessageContent (sanitizeInput content)
          then (Inl (InvalidInput MessageContentLength), snd (limit c SendMessageBucket uid))
          else (Inl NotAFunctionReference, snd (limit c SendMessageBucket uid)))"
  unfolding sendMessage_def
  by (simp add: split_beta Let_def runQuery_def internalGetThreadById_def split: option.split)

section \<open>The claims\<close>

text \<open>
  C1. An update whose requested status is not among \<open>VALID_STATUS_TRANSITIONS\<close> of the
  stored status should be rejected and leave the task unchanged. The table does not list
  in_progress for completed, but \<open>update\<close> never consults the table: Alice's update of
  her completed task 2 to in_progress is accepted, the stored status becomes in_progress
  and \<open>completedAt\<close> is cleared.
\<close>

theorem update_reopens_completed_to_in_progress:
  "InProgress \<notin> set (VALID_STATUS_TRANSITIONS Completed)
   \<and> authUser sample_ctx = Some alice
   \<and> getTaskById sample_ctx 2 = Some (sample_task alice Completed (Some 2000))
   \<and> fst (update sample_ctx (status_update 2 InProgress))
       = Inr (Some ((sample_task alice InProgress None)\<lparr>task_updatedAt := 5000\<rparr>))
   \<and> getTaskById (snd (update sample_ctx (status_update 2 InProgress))) 2
       = Some ((sample_task alice InProgress None)\<lparr>task_updatedAt := 5000\<rparr>)"
  by (simp add: update_cases sample_defs task_store_defs)

text \<open>
  C2. \<open>completedAt\<close> is set if and only if the status is completed, after every create,
  update and complete: each of the three handlers, and \<open>remove\<close> too, leaves every task
  of the table consistent when it found the table so, whether it succeeds or throws. An update that
  supplies a status and succeeds stores that status; it stamps \<open>completedAt\<close> with the
  current time when the requested status is completed and the stored one was not, clears
  it when the requested status is not completed and the stored one was, and leaves it
  alone otherwise. The previous status in this decision is that of the task read from
  the table before the update (\<open>getTaskById c\<close>); the arguments carry no previous
  status. A successful complete stores the status completed and the current time. An
  empty table is consistent, so the invariant holds in every store built by the
  handlers from an empty one.
\<close>

theorem completedAt_set_iff_completed:
  assumes "tasks_consistent c"
  shows "tasks_consistent (snd (create c ca))
    \<and> tasks_consistent (snd (update c ua))
    \<and> tasks_consistent (snd (complete c i))
    \<and> tasks_consistent (snd (remove c i))
    \<and> (\<forall>st t r c'.
          ua_status ua = Some st \<and> getTaskById c (ua_id ua) = Some t
          \<and> update c ua = (Inr r, c') \<longrightarrow>
          (\<exists>t'. r = Some t' \<and> getTaskById c' (ua_id ua) = Some t' \<and> task_status t' = st
             \<and> task_completedAt t' =
                 (if st = Completed \<and> task_status t \<noteq> Completed then Some (now c)
                  else if st \<noteq> Completed \<and> task_status t = Completed then None
                  else task_completedAt t)))
    \<and> (\<forall>r c'. complete c i = (Inr r, c') \<longrightarrow>
          (\<exists>t'. r = Some t' \<and> getTaskById c' i = Some t' \<and> task_status t' = Completed
             \<and> task_completedAt t' = Some (now c)))
    \<and> (tasks e = [] \<longrightarrow> tasks_consistent e)"
proof (intro conjI allI impI)
  show "tasks_consistent (snd (create c ca))"
    using assms by (rule create_consistent)
  show "tasks_consistent (snd (update c ua))"
    using assms by (rule update_consistent)
  show "tasks_consistent (snd (complete c i))"
    using assms by (rule complete_consistent)
  show "tasks_consistent (snd (remove c i))"
    using assms by (rule remove_consistent)
next
  fix st t r c'
  assume "ua_status ua = Some st \<and> getTaskById c (ua_id ua) = Some t
    \<and> update c ua = (Inr r, c')"
  then show "\<exists>t'. r = Some t' \<and> getTaskById c' (ua_id ua) = Some t' \<and> task_status t' = st
      \<and> task_completedAt t' =
          (if st = Completed \<and> task_status t \<noteq> Completed then Some (now c)
           else if st \<noteq> Completed \<and> task_status t = Completed then None
           else task_completedAt t)"
    using update_completedAt by blast
next
  fix r c'
  assume "complete c i = (Inr r, c')"
  then show "\<exists>t'. r = Some t' \<and> getTaskById c' i = Some t' \<and> task_status t' = Completed
      \<and> task_completedAt t' = Some (now c)"
    by (rule complete_success)
next
  assume "tasks e = []"
  then show "tasks_consistent e"
    by (simp add: tasks_consistent_def)
qed

theorem completedAt_set_iff_completed_witness:
  "tasks_consistent sample_ctx
   \<and> tasks_consistent (snd (update sample_ctx (status_update 1 Completed)))
   \<and> map_option task_completedAt
        (getTaskById (snd (update sample_ctx (status_update 1 Completed))) 1) = Some (Some 5000)
   \<and> map_option task_completedAt
        (getTaskById (snd (update sample_ctx (status_update 2 Pending))) 2) = Some None"
proof -
  have c: "tasks_consistent sample_ctx"
    by (simp add: tasks_consistent_def completedAt_iff_completed_def sample_defs)
  have "tasks_consistent (snd (update sample_ctx (status_update 1 Completed)))"
    using completedAt_set_iff_completed
      [OF c, of "titled (js ''Plan'')" "status_update 1 Completed" 1]
    by simp
  moreover have "map_option task_completedAt
        (getTaskById (snd (update sample_ctx (status_update 1 Completed))) 1) = Some (Some 5000)"
    by (simp add: update_cases sample_defs task_store_defs)
  moreover have "map_option task_completedAt
        (getTaskById (snd (update sample_ctx (status_update 2 Pending))) 2) = Some None"
    by (simp add: update_cases sample_defs task_store_defs)
  ultimately show ?thesis using c by simp
qed

text \<open>
  C3, as stated, fails for the three task mutations that are rate limited: with a rate
  limiter that refuses every call, Alice's \<open>update\<close>, \<open>complete\<close> and \<open>remove\<close> on Bob's
  task 3 fail with RateLimited and not with Forbidden, because the handlers consult the
  limiter before they load the task.
\<close>

theorem non_owner_is_rate_limited_first:
  "authUser limited_ctx = Some alice
   \<and> getTaskById limited_ctx 3 = Some (sample_task bob Pending None)
   \<and> task_userId (sample_task bob Pending None) \<noteq> alice
   \<and> fst (update limited_ctx (retitle 3 (js ''Mine''))) = Inl (RateLimited 2)
   \<and> fst (complete limited_ctx 3) = Inl (RateLimited 2)
   \<and> fst (remove limited_ctx 3) = Inl (RateLimited 2)
   \<and> fst (update limited_ctx (retitle 3 (js ''Mine''))) \<noteq> Inl Forbidden"
  by (simp add: update_cases complete_cases remove_cases limited_ctx_def sample_defs
      getTaskById_def db_get_def rate_limit_error_def ceil_seconds_def)

text \<open>
  C3, amended. An authenticated caller who is not the owner of an existing task or
  thread never gets NotFound and never succeeds, and the tables are left as they were.
  \<open>get\<close>, \<open>getThread\<close>, \<open>updateThread\<close> and \<open>deleteThread\<close> return Forbidden. \<open>update\<close>,
  \<open>complete\<close> and \<open>remove\<close> consult the rate limiter before they load the task: they
  return Forbidden when the limiter admits the call, and RateLimited when it refuses.
\<close>

theorem non_owner_gets_forbidden:
  assumes "authUser c = Some caller"
  shows "(\<forall>t. getTaskById c (ua_id a) = Some t \<and> task_userId t \<noteq> caller \<longrightarrow>
            get c (ua_id a) = Inl Forbidden
          \<and> fst (update c a) =
               (if ok (limiter c UpdateTaskBucket caller) then Inl Forbidden
                else Inl (rate_limit_error (limiter c UpdateTaskBucket caller)))
          \<and> fst (complete c (ua_id a)) =
               (if ok (limiter c UpdateTaskBucket caller) then Inl Forbidden
                else Inl (rate_limit_error (limiter c UpdateTaskBucket caller)))
          \<and> fst (remove c (ua_id a)) =
               (if ok (limiter c DeleteTaskBucket caller) then Inl Forbidden
                else Inl (rate_limit_error (limiter c DeleteTaskBucket caller)))
          \<and> fst (update c a) \<noteq> Inl NotFound \<and> (\<forall>r. fst (update c a) \<noteq> Inr r)
          \<and> fst (complete c (ua_id a)) \<noteq> Inl NotFound
          \<and> (\<forall>r. fst (complete c (ua_id a)) \<noteq> Inr r)
          \<and> fst (remove c (ua_id a)) \<noteq> Inl NotFound
          \<and> (\<forall>r. fst (remove c (ua_id a)) \<noteq> Inr r)
          \<and> tasks (snd (update c a)) = tasks c
          \<and> tasks (snd (complete c (ua_id a))) = tasks c
          \<and> tasks (snd (remove c (ua_id a))) = tasks c)
    \<and> (\<forall>th. getThreadById c j = Some th \<and> thread_userId th \<noteq> caller \<longrightarrow>
            getThread c j = Inl Forbidden
          \<and> updateThread c j title st = (Inl Forbidden, c)
          \<and> deleteThread c j = (Inl Forbidden, c))"
proof -
  have task_part:
    "get c (ua_id a) = Inl Forbidden
     \<and> fst (update c a) =
          (if ok (limiter c UpdateTaskBucket caller) then Inl Forbidden
           else Inl (rate_limit_error (limiter c UpdateTaskBucket caller)))
     \<and> fst (complete c (ua_id a)) =
          (if ok (limiter c UpdateTaskBucket caller) then Inl Forbidden
           else Inl (rate_limit_error (limiter c UpdateTaskBucket caller)))
     \<and> fst (remove c (ua_id a)) =
          (if ok (limiter c DeleteTaskBucket caller) then Inl Forbidden
           else Inl (rate_limit_error (limiter c DeleteTaskBucket caller)))
     \<and> fst (update c a) \<noteq> Inl NotFound \<and> (\<forall>r. fst (update c a) \<noteq> Inr r)
     \<and> fst (complete c (ua_id a)) \<noteq> Inl NotFound
     \<and> (\<forall>r. fst (complete c (ua_id a)) \<noteq> Inr r)
     \<and> fst (remove c (ua_id a)) \<noteq> Inl NotFound
     \<and> (\<forall>r. fst (remove c (ua_id a)) \<noteq> Inr r)
     \<and> tasks (snd (update c a)) = tasks c
     \<and> tasks (snd (complete c (ua_id a))) = tasks c
     \<and> tasks (snd (remove c (ua_id a))) = tasks c"
    if "getTaskById c (ua_id a) = Some t \<and> task_userId t \<noteq> caller" for t
    using assms that
    by (simp add: get_def update_cases complete_cases remove_cases rate_limit_error_def)
  have thread_part:
    "getThread c j = Inl Forbidden
     \<and> updateThread c j title st = (Inl Forbidden, c)
     \<and> deleteThread c j = (Inl Forbidden, c)"
    if "getThreadById c j = Some th \<and> thread_userId th \<noteq> caller" for th
    using assms that by (simp add: getThread_def updateThread_def deleteThread_def)
  show ?thesis
    using task_part thread_part by blast
qed

theorem non_owner_gets_forbidden_witness:
  "authUser sample_ctx = Some alice
   \<and> getTaskById sample_ctx 3 = Some (sample_task bob Pending None)
   \<and> getThreadById sample_ctx 5 = Some (sample_thread bob)
   \<and> get sample_ctx 3 = Inl Forbidden
   \<and> fst (update sample_ctx (retitle 3 (js ''Mine''))) = Inl Forbidden
   \<and> fst (complete sample_ctx 3) = Inl Forbidden
   \<and> fst (remove sample_ctx 3) = Inl Forbidden
   \<and> getThread sample_ctx 5 = Inl Forbidden
   \<and> fst (updateThread sample_ctx 5 None (Some Archived)) = Inl Forbidden
   \<and> fst (deleteThread sample_ctx 5) = Inl Forbidden"
proof -
  have auth: "authUser sample_ctx = Some alice"
    by (simp add: sample_defs)
  have task: "getTaskById sample_ctx 3 = Some (sample_task bob Pending None)"
    by (simp add: sample_defs getTaskById_def db_get_def)
  have thread: "getThreadById sample_ctx 5 = Some (sample_thread bob)"
    by (simp add: sample_defs getThreadById_def db_get_def)
  have other: "task_userId (sample_task bob Pending None) \<noteq> alice"
    "thread_userId (sample_thread bob) \<noteq> alice"
    by (simp_all add: sample_defs)
  have adm: "ok (limiter sample_ctx UpdateTaskBucket alice)"
    "ok (limiter sample_ctx DeleteTaskBucket alice)"
    by (simp_all add: sample_defs)
  have id3: "ua_id (retitle 3 (js ''Mine'')) = 3"
    by (simp add: retitle_def)
  show ?thesis
    using non_owner_gets_forbidden [OF auth, of "retitle 3 (js ''Mine'')" 5 None "Some Archived"]
      auth task thread other adm
    by (simp add: id3)
qed

text \<open>
  C4. A successful \<open>deleteThread\<close> by the owner deletes the messages first and the thread
  second. The log of writes shows the order: what the handler writes is one delete for
  each of the N messages of the thread, in the order of the index, and then the delete
  of the thread, as its last write. \<open>deleteMessagesByThread\<close> reports the N messages as
  deleted; in the context it leaves (\<open>deleteThread_messages\<close>), which is the state
  between the last message delete and the thread delete, no message of the thread
  remains and the thread is still stored. In the final context the thread is absent and
  still no message of it remains. Where message ids are distinct, the messages of other
  threads are exactly what is left.
\<close>

theorem deleteThread_deletes_messages_then_thread:
  assumes "authUser c = Some owner" "getThreadById c tid = Some th" "thread_userId th = owner"
  shows "fst (deleteThread c tid) = Inr ()
     \<and> fst (deleteMessagesByThread c tid) = countMessagesInThread c tid
     \<and> getMessagesByThread (deleteThread_messages c tid) tid = []
     \<and> countMessagesInThread (deleteThread_messages c tid) tid = 0
     \<and> getThreadById (deleteThread_messages c tid) tid = Some th
     \<and> snd (deleteThread c tid) = db_deleteThread (deleteThread_messages c tid) tid
     \<and> getThreadById (snd (deleteThread c tid)) tid = None
     \<and> getMessagesByThread (snd (deleteThread c tid)) tid = []
     \<and> (distinct (map fst (messages c)) \<longrightarrow>
          messages (snd (deleteThread c tid))
            = filter (\<lambda>(j, m). message_threadId m \<noteq> tid) (messages c))
     \<and> writes (deleteThread_messages c tid)
          = writes c @ map (\<lambda>(i, m). Deleted MessagesTable i) (getMessagesByThread c tid)
     \<and> writes (snd (deleteThread c tid))
          = writes c @ map (\<lambda>(i, m). Deleted MessagesTable i) (getMessagesByThread c tid)
            @ [Deleted ThreadsTable tid]"
proof -
  let ?mid = "deleteThread_messages c tid"
  have run: "deleteThread c tid = (Inr (), db_deleteThread ?mid tid)"
    using assms by (simp add: deleteThread_def)
  have gone: "getMessagesByThread ?mid tid = []"
    by (rule no_messages_left)
  have still: "getThreadById ?mid tid = Some th"
    using assms(2)
    by (simp add: getThreadById_def deleteThread_messages_def deleteMessagesByThread_def
        Let_def delete_each_threads)
  have msgs: "messages (db_deleteThread ?mid tid) = messages ?mid"
    by (simp add: db_deleteThread_def)
  have log_mid: "writes ?mid
      = writes c @ map (\<lambda>(i, m). Deleted MessagesTable i) (getMessagesByThread c tid)"
    by (simp add: deleteThread_messages_def deleteMessagesByThread_def Let_def
        delete_each_writes)
  have log_end: "writes (db_deleteThread ?mid tid)
      = writes c @ map (\<lambda>(i, m). Deleted MessagesTable i) (getMessagesByThread c tid)
        @ [Deleted ThreadsTable tid]"
    by (simp add: db_deleteThread_def log_mid)
  have "getThreadById (db_deleteThread ?mid tid) tid = None"
    by (simp add: getThreadById_def db_deleteThread_def db_get_delete)
  moreover have "getMessagesByThread (db_deleteThread ?mid tid) tid = []"
    using gone by (simp add: getMessagesByThread_def msgs)
  moreover have "fst (deleteMessagesByThread c tid) = countMessagesInThread c tid"
    by (simp add: deleteMessagesByThread_def countMessagesInThread_def Let_def)
  moreover have "countMessagesInThread ?mid tid = 0"
    using gone by (simp add: countMessagesInThread_def)
  ultimately show ?thesis
    using run still gone log_mid log_end others_kept [of c tid] by (simp add: msgs)
qed

theorem deleteThread_deletes_messages_then_thread_witness:
  "authUser sample_ctx = Some alice
   \<and> getThreadById sample_ctx 4 = Some (sample_thread alice)
   \<and> countMessagesInThread sample_ctx 4 = 2
   \<and> fst (deleteThread sample_ctx 4) = Inr ()
   \<and> countMessagesInThread (deleteThread_messages sample_ctx 4) 4 = 0
   \<and> getThreadById (deleteThread_messages sample_ctx 4) 4 = Some (sample_thread alice)
   \<and> getThreadById (snd (deleteThread sample_ctx 4)) 4 = None
   \<and> getMessagesByThread (snd (deleteThread sample_ctx 4)) 4 = []
   \<and> writes (snd (deleteThread sample_ctx 4))
       = [Deleted MessagesTable 6, Deleted MessagesTable 7, Deleted ThreadsTable 4]"
proof -
  have auth: "authUser sample_ctx = Some alice"
    by (simp add: sample_defs)
  have thread: "getThreadById sample_ctx 4 = Some (sample_thread alice)"
    by (simp add: sample_defs getThreadById_def db_get_def)
  have own: "thread_userId (sample_thread alice) = alice"
    by (simp add: sample_defs)
  have two: "countMessagesInThread sample_ctx 4 = 2"
    by (simp add: sample_defs countMessagesInThread_def getMessagesByThread_def)
  have found: "writes sample_ctx
      @ map (\<lambda>(i, m). Deleted MessagesTable i) (getMessagesByThread sample_ctx 4)
      @ [Deleted ThreadsTable 4]
      = [Deleted MessagesTable 6, Deleted MessagesTable 7, Deleted ThreadsTable 4]"
    by (simp add: sample_defs getMessagesByThread_def)
  show ?thesis
    using deleteThread_deletes_messages_then_thread [OF auth thread own] auth thread two found
    by metis
qed

text \<open>
  C5. \<open>sendMessage\<close> on a thread that already holds 1000 messages should fail with
  QuotaExceeded before the user's message is persisted and before the agent is called.
  The handler does compare the count with the maximum in its step 5, but no call gets
  there: step 4 hands the registered function \<open>internalGetThreadById\<close> to
  \<open>ctx.runQuery\<close>, which throws. Alice's valid message to her own thread 4, which holds
  1000 messages, fails with that error and not with QuotaExceeded; no message is stored
  and the agent is not called.
\<close>

theorem sendMessage_on_full_thread_stops_at_runQuery:
  "countMessagesInThread full_ctx 4 = 1000
   \<and> authUser full_ctx = Some alice
   \<and> ok (limiter full_ctx SendMessageBucket alice)
   \<and> isValidMessageContent (sanitizeInput (js ''hi''))
   \<and> getThreadById full_ctx 4 = Some (sample_thread alice)
   \<and> fst (sendMessage full_ctx 4 (js ''hi'')) = Inl NotAFunctionReference
   \<and> fst (sendMessage full_ctx 4 (js ''hi'')) \<noteq> Inl QuotaExceeded
   \<and> messages (snd (sendMessage full_ctx 4 (js ''hi''))) = messages full_ctx
   \<and> agent_calls (snd (sendMessage full_ctx 4 (js ''hi''))) = []"
proof -
  have count: "countMessagesInThread full_ctx 4 = 1000"
    by (simp add: full_ctx_def countMessagesInThread_def getMessagesByThread_def sample_defs
        filter_map comp_def)
  have auth: "authUser full_ctx = Some alice"
    and adm: "ok (limiter full_ctx SendMessageBucket alice)"
    and thread: "getThreadById full_ctx 4 = Some (sample_thread alice)"
    and none: "agent_calls full_ctx = []"
    by (simp_all add: full_ctx_def sample_defs getThreadById_def db_get_def)
  have valid: "isValidMessageContent (sanitizeInput (js ''hi''))"
    by (simp add: isValidMessageContent_def sanitizeInput_def trim_def js_def is_space_def)
  show ?thesis
    using count auth adm thread none valid by (simp add: sendMessage_cases)
qed

text \<open>
  C6. \<open>updateThread\<close> and \<open>deleteThread\<close> should consume one unit of a rate-limit bucket
  keyed by the caller and fail with RateLimited when the bucket is exhausted, as
  \<open>createThread\<close> and the task mutations do. Neither handler calls the limiter: with a
  rate limiter that refuses every call, Alice's \<open>updateThread\<close> and \<open>deleteThread\<close> on
  her own thread 4 both succeed, and the log of limiter calls stays empty.
\<close>

theorem thread_update_and_delete_ignore_limiter:
  "authUser limited_ctx = Some alice
   \<and> getThreadById limited_ctx 4 = Some (sample_thread alice)
   \<and> \<not> ok (limiter limited_ctx CreateThreadBucket alice)
   \<and> \<not> ok (limiter limited_ctx UpdateTaskBucket alice)
   \<and> \<not> ok (limiter limited_ctx DeleteTaskBucket alice)
   \<and> \<not> ok (limiter limited_ctx CreateTaskBucket alice)
   \<and> \<not> ok (limiter limited_ctx SendMessageBucket alice)
   \<and> fst (updateThread limited_ctx 4 None (Some Archived))
       = Inr (Some ((sample_thread alice)\<lparr>thread_status := Archived,
                                           thread_updatedAt := 5000\<rparr>))
   \<and> limiter_calls (snd (updateThread limited_ctx 4 None (Some Archived))) = []
   \<and> fst (deleteThread limited_ctx 4) = Inr ()
   \<and> limiter_calls (snd (deleteThread limited_ctx 4)) = []
   \<and> fst (createThread limited_ctx None) = Inl (RateLimited 2)
   \<and> limiter_calls (snd (createThread limited_ctx None)) = [(CreateThreadBucket, alice)]"
  by (simp add: limited_ctx_def sample_defs updateThread_def deleteThread_def getThreadById_def
      db_get_def db_updateThread_def patch_thread_def db_deleteThread_def
      deleteThread_messages_def deleteMessagesByThread_def delete_each_limiter_calls Let_def
      createThread_def limit_def rate_limit_error_def ceil_seconds_def)

text \<open>
  C7, as stated, fails: Alice's update of Bob's task 3 with an empty title, which the
  title check would reject, fails with Forbidden and not with InvalidInput.
\<close>

theorem update_invalid_title_on_foreign_task_is_forbidden:
  "authUser sample_ctx = Some alice
   \<and> ok (limiter sample_ctx UpdateTaskBucket alice)
   \<and> getTaskById sample_ctx 3 = Some (sample_task bob Pending None)
   \<and> \<not> isValidTaskTitle (sanitizeInput [])
   \<and> fst (update sample_ctx (retitle 3 [])) = Inl Forbidden
   \<and> fst (update sample_ctx (retitle 3 [])) \<noteq> Inl (InvalidInput TaskTitleLength)"
  by (simp add: update_cases sample_defs task_store_defs sanitizeInput_def trim_def
      isValidTaskTitle_def)

text \<open>
  C7, amended. \<open>update\<close> runs its steps in the order authentication, rate limit, target
  (load and ownership), field validation: an unauthenticated call fails with
  Unauthenticated; a refused call with RateLimited; an admitted call on an id that does
  not resolve with NotFound and on a task of another user with Forbidden, whatever
  fields it supplies; InvalidInput is returned only when the target exists, belongs to
  the caller and the field validation of step 4 rejects the fields. \<open>create\<close>, which has
  no target, validates the title right after the rate limit.
\<close>

theorem update_checks_target_before_fields:
  "(authUser c = None \<longrightarrow> fst (update c a) = Inl Unauthenticated)
   \<and> (\<forall>uid. authUser c = Some uid \<and> \<not> ok (limiter c UpdateTaskBucket uid) \<longrightarrow>
          fst (update c a) = Inl (rate_limit_error (limiter c UpdateTaskBucket uid)))
   \<and> (\<forall>uid. authUser c = Some uid \<and> ok (limiter c UpdateTaskBucket uid)
          \<and> getTaskById c (ua_id a) = None \<longrightarrow>
          fst (update c a) = Inl NotFound)
   \<and> (\<forall>uid t. authUser c = Some uid \<and> ok (limiter c UpdateTaskBucket uid)
          \<and> getTaskById c (ua_id a) = Some t \<and> task_userId t \<noteq> uid \<longrightarrow>
          fst (update c a) = Inl Forbidden)
   \<and> (\<forall>k. fst (update c a) = Inl (InvalidInput k) \<longrightarrow>
          (\<exists>uid t. authUser c = Some uid \<and> ok (limiter c UpdateTaskBucket uid)
             \<and> getTaskById c (ua_id a) = Some t \<and> task_userId t = uid
             \<and> build_updates (now c) t a = Inl (InvalidInput k)))
   \<and> (\<forall>uid. authUser c = Some uid \<and> ok (limiter c CreateTaskBucket uid)
          \<and> \<not> isValidTaskTitle (sanitizeInput (ca_title ca)) \<longrightarrow>
          fst (create c ca) = Inl (InvalidInput TaskTitleLength))"
proof -
  have "\<exists>uid t. authUser c = Some uid \<and> ok (limiter c UpdateTaskBucket uid)
             \<and> getTaskById c (ua_id a) = Some t \<and> task_userId t = uid
             \<and> build_updates (now c) t a = Inl (InvalidInput k)"
    if "fst (update c a) = Inl (InvalidInput k)" for k
    using that by (rule update_invalid_input)
  moreover have "fst (create c ca) = Inl (InvalidInput TaskTitleLength)"
    if "authUser c = Some uid \<and> ok (limiter c CreateTaskBucket uid)
          \<and> \<not> isValidTaskTitle (sanitizeInput (ca_title ca))" for uid
    using that by (simp add: create_cases)
  moreover have "authUser c = None \<longrightarrow> fst (update c a) = Inl Unauthenticated"
    by (simp add: update_cases)
  moreover have "fst (update c a) = Inl (rate_limit_error (limiter c UpdateTaskBucket uid))"
    if "authUser c = Some uid \<and> \<not> ok (limiter c UpdateTaskBucket uid)" for uid
    using that by (simp add: update_cases)
  moreover have "fst (update c a) = Inl NotFound"
    if "authUser c = Some uid \<and> ok (limiter c UpdateTaskBucket uid)
          \<and> getTaskById c (ua_id a) = None" for uid
    using that by (simp add: update_cases)
  moreover have "fst (update c a) = Inl Forbidden"
    if "authUser c = Some uid \<and> ok (limiter c UpdateTaskBucket uid)
          \<and> getTaskById c (ua_id a) = Some t \<and> task_userId t \<noteq> uid" for uid t
    using that by (simp add: update_cases)
  ultimately show ?thesis by blast
qed

theorem update_checks_target_before_fields_witness:
  "authUser sample_ctx = Some alice
   \<and> ok (limiter sample_ctx UpdateTaskBucket alice)
   \<and> getTaskById sample_ctx 9 = None
   \<and> fst (update sample_ctx (retitle 9 [])) = Inl NotFound
   \<and> getTaskById sample_ctx 3 = Some (sample_task bob Pending None)
   \<and> fst (update sample_ctx (retitle 3 [32])) = Inl Forbidden"
proof -
  have auth: "authUser sample_ctx = Some alice"
    and adm: "ok (limiter sample_ctx UpdateTaskBucket alice)"
    and absent: "getTaskById sample_ctx 9 = None"
    and task: "getTaskById sample_ctx 3 = Some (sample_task bob Pending None)"
    and other: "task_userId (sample_task bob Pending None) \<noteq> alice"
    by (simp_all add: sample_defs getTaskById_def db_get_def)
  have ids: "ua_id (retitle 9 []) = 9" "ua_id (retitle 3 [32]) = 3"
    by (simp_all add: retitle_def)
  have "fst (update sample_ctx (retitle 9 [])) = Inl NotFound"
    using update_checks_target_before_fields [of sample_ctx "retitle 9 []" "titled []"]
      auth adm absent ids(1)
    by simp
  moreover have "fst (update sample_ctx (retitle 3 [32])) = Inl Forbidden"
    using update_checks_target_before_fields [of sample_ctx "retitle 3 [32]" "titled []"]
      auth adm task other ids(2)
    by simp
  ultimately show ?thesis
    using auth adm absent task by simp
qed

text \<open>
  C8, as stated, fails, because the length that is checked is that of the sanitized
  title: a title of length 1 that is a single space is rejected by \<open>create\<close> and by
  \<open>update\<close>, and a title of length 201 that is a space followed by 200 letters is
  accepted by \<open>create\<close>, with every other precondition met.
\<close>

theorem title_length_is_not_the_supplied_length:
  "length [32 :: code_unit] = 1
   \<and> fst (create sample_ctx (titled [32])) = Inl (InvalidInput TaskTitleLength)
   \<and> fst (update sample_ctx (retitle 1 [32])) = Inl (InvalidInput TaskTitleLength)
   \<and> length (32 # replicate 200 (97 :: code_unit)) = 201
   \<and> fst (create sample_ctx (titled (32 # replicate 200 97))) = Inr 8"
proof -
  have "sanitizeInput (32 # replicate 200 97) = replicate 200 97"
    by (simp add: sanitizeInput_leading sanitizeInput_id is_space_def)
  then have "fst (create sample_ctx (titled (32 # replicate 200 97))) = Inr 8"
    by (simp add: create_def limit_def createTask_def Let_def isValidTaskTitle_def
        truthy_string_def truthy_number_def getTasksByUser_def MAX_TASKS_PER_USER_def
        sample_defs)
  moreover have "fst (create sample_ctx (titled [32])) = Inl (InvalidInput TaskTitleLength)"
    by (simp add: create_eval_defs sample_defs)
  moreover have "fst (update sample_ctx (retitle 1 [32])) = Inl (InvalidInput TaskTitleLength)"
    by (simp add: update_cases sample_defs task_store_defs sanitizeInput_def trim_def
        is_space_def isValidTaskTitle_def)
  ultimately show ?thesis by simp
qed

text \<open>
  C8, amended. With an authenticated caller, an admitted call and, for \<open>update\<close>, a target
  the caller owns, a title whose sanitized form (trimmed, runs of white space collapsed)
  has length 0 or more than 200, in particular 201, fails with InvalidInput; a title
  whose sanitized form has a length from 1 to 200, in particular 1 or 200, succeeds when
  the other preconditions are met (description and due date valid or not supplied, and
  for \<open>create\<close> the task quota not reached), and \<open>update\<close> stores the sanitized title.
\<close>

theorem title_length_checked_after_sanitizing:
  assumes "authUser c = Some uid"
  shows "(ok (limiter c CreateTaskBucket uid) \<longrightarrow>
           ((length (sanitizeInput (ca_title ca)) = 0 \<or> length (sanitizeInput (ca_title ca)) > 200)
              \<longrightarrow> fst (create c ca) = Inl (InvalidInput TaskTitleLength))
         \<and> (1 \<le> length (sanitizeInput (ca_title ca)) \<and> length (sanitizeInput (ca_title ca)) \<le> 200
              \<and> (\<forall>d. ca_description ca = Some d \<and> d \<noteq> []
                     \<longrightarrow> isValidTaskDescription (sanitizeInput d))
              \<and> (\<forall>d. ca_dueDate ca = Some d \<and> truthy d \<longrightarrow> isValidDueDate (now c) d)
              \<and> length (getTasksByUser c uid) < MAX_TASKS_PER_USER
              \<longrightarrow> fst (create c ca) = Inr (next_id c)))
    \<and> (\<forall>t title. ok (limiter c UpdateTaskBucket uid) \<and> getTaskById c (ua_id ua) = Some t
           \<and> task_userId t = uid \<and> ua_title ua = Some title \<longrightarrow>
           ((length (sanitizeInput title) = 0 \<or> length (sanitizeInput title) > 200)
              \<longrightarrow> fst (update c ua) = Inl (InvalidInput TaskTitleLength))
         \<and> (1 \<le> length (sanitizeInput title) \<and> length (sanitizeInput title) \<le> 200
              \<and> (\<forall>d. ua_description ua = Some d \<longrightarrow> isValidTaskDescription (sanitizeInput d))
              \<and> (\<forall>d. ua_dueDate ua = Some d \<longrightarrow> isValidDueDate (now c) d)
              \<longrightarrow> (\<exists>t'. fst (update c ua) = Inr (Some t')
                         \<and> task_title t' = sanitizeInput title)))"
proof -
  have create_part:
    "((length (sanitizeInput (ca_title ca)) = 0 \<or> length (sanitizeInput (ca_title ca)) > 200)
              \<longrightarrow> fst (create c ca) = Inl (InvalidInput TaskTitleLength))
         \<and> (1 \<le> length (sanitizeInput (ca_title ca)) \<and> length (sanitizeInput (ca_title ca)) \<le> 200
              \<and> (\<forall>d. ca_description ca = Some d \<and> d \<noteq> []
                     \<longrightarrow> isValidTaskDescription (sanitizeInput d))
              \<and> (\<forall>d. ca_dueDate ca = Some d \<and> truthy d \<longrightarrow> isValidDueDate (now c) d)
              \<and> length (getTasksByUser c uid) < MAX_TASKS_PER_USER
              \<longrightarrow> fst (create c ca) = Inr (next_id c))"
    if "ok (limiter c CreateTaskBucket uid)"
    using assms that
    by (auto simp: create_cases isValidTaskTitle_def truthy_string_def truthy_number_def
        split: option.splits)
  have update_invalid: "fst (update c ua) = Inl (InvalidInput TaskTitleLength)"
    if adm: "ok (limiter c UpdateTaskBucket uid)" and t: "getTaskById c (ua_id ua) = Some t"
      and own: "task_userId t = uid" and title: "ua_title ua = Some title"
      and len: "length (sanitizeInput title) = 0 \<or> length (sanitizeInput title) > 200"
    for t title
  proof -
    have "\<not> isValidTaskTitle (sanitizeInput title)"
      using len by (auto simp: isValidTaskTitle_def)
    then show ?thesis
      using update_owned [OF assms adm t own] build_updates_title_invalid [OF title]
      by simp
  qed
  have update_valid: "\<exists>t'. fst (update c ua) = Inr (Some t') \<and> task_title t' = sanitizeInput title"
    if adm: "ok (limiter c UpdateTaskBucket uid)" and t: "getTaskById c (ua_id ua) = Some t"
      and own: "task_userId t = uid" and title: "ua_title ua = Some title"
      and len: "1 \<le> length (sanitizeInput title) \<and> length (sanitizeInput title) \<le> 200"
      and descr: "\<forall>d. ua_description ua = Some d \<longrightarrow> isValidTaskDescription (sanitizeInput d)"
      and due: "\<forall>d. ua_dueDate ua = Some d \<longrightarrow> isValidDueDate (now c) d" for t title
  proof -
    have "\<forall>x. ua_title ua = Some x \<longrightarrow> isValidTaskTitle (sanitizeInput x)"
      using title len by (auto simp: isValidTaskTitle_def)
    from build_updates_valid [OF this descr due, of t]
    obtain u where "build_updates (now c) t ua = Inr u" "upd_title u = Some (sanitizeInput title)"
      using title by auto
    then show ?thesis
      using update_owned [OF assms adm t own] by (simp add: patch_task_def)
  qed
  show ?thesis
    using create_part update_invalid update_valid by blast
qed

theorem title_length_checked_after_sanitizing_witness:
  "authUser sample_ctx = Some alice
   \<and> ok (limiter sample_ctx CreateTaskBucket alice)
   \<and> length (sanitizeInput (32 # replicate 201 97)) = 201
   \<and> fst (create sample_ctx (titled (32 # replicate 201 97))) = Inl (InvalidInput TaskTitleLength)
   \<and> length (sanitizeInput (replicate 200 97)) = 200
   \<and> fst (create sample_ctx (titled (replicate 200 97))) = Inr 8"
proof -
  have auth: "authUser sample_ctx = Some alice"
    and adm: "ok (limiter sample_ctx CreateTaskBucket alice)"
    and quota: "length (getTasksByUser sample_ctx alice) < MAX_TASKS_PER_USER"
    and fresh: "next_id sample_ctx = 8"
    by (simp_all add: sample_defs getTasksByUser_def MAX_TASKS_PER_USER_def)
  have long: "length (sanitizeInput (32 # replicate 201 97)) = 201"
    by (simp add: sanitizeInput_leading sanitizeInput_id is_space_def)
  have short: "length (sanitizeInput (replicate 200 97)) = 200"
    by (simp add: sanitizeInput_id is_space_def)
  have "fst (create sample_ctx (titled (32 # replicate 201 97)))
      = Inl (InvalidInput TaskTitleLength)"
    using title_length_checked_after_sanitizing
      [OF auth, of "titled (32 # replicate 201 97)" "retitle 1 []"] adm long
    by (simp add: titled_def)
  moreover have "fst (create sample_ctx (titled (replicate 200 97))) = Inr 8"
    using title_length_checked_after_sanitizing
      [OF auth, of "titled (replicate 200 97)" "retitle 1 []"] adm short quota fresh
    by (simp add: titled_def)
  ultimately show ?thesis
    using auth adm long short by simp
qed

text \<open>
  C9. Every task that \<open>create\<close> stores has the status pending and no \<open>completedAt\<close>,
  whatever arguments the caller supplies (the arguments of \<open>create\<close> have no status and
  no completion time): a successful create appends exactly one row under the returned
  id, and that task is pending, has no completion time and so satisfies the invariant
  of C2. Where the id is fresh for the table, the task is what \<open>getTaskById\<close> finds.
\<close>

theorem created_task_is_pending:
  assumes "create c a = (Inr i, c')"
  shows "\<exists>t. tasks c' = tasks c @ [(i, t)] \<and> task_status t = Pending
      \<and> task_completedAt t = None \<and> completedAt_iff_completed t
      \<and> (i \<notin> fst ` set (tasks c) \<longrightarrow> getTaskById c' i = Some t)"
proof -
  from create_success [OF assms] obtain t
    where t: "tasks c' = tasks c @ [(i, t)]" "task_status t = Pending" "task_completedAt t = None"
    by blast
  moreover have "completedAt_iff_completed t"
    using t by (simp add: completedAt_iff_completed_def)
  moreover have "i \<notin> fst ` set (tasks c) \<longrightarrow> getTaskById c' i = Some t"
    using t(1) by (simp add: getTaskById_def db_get_append_fresh)
  ultimately show ?thesis by blast
qed

theorem created_task_is_pending_witness:
  "fst (create sample_ctx (titled (js ''Plan''))) = Inr 8
   \<and> map_option task_status
        (getTaskById (snd (create sample_ctx (titled (js ''Plan'')))) 8) = Some Pending
   \<and> map_option task_completedAt
        (getTaskById (snd (create sample_ctx (titled (js ''Plan'')))) 8) = Some None"
proof -
  have run: "create sample_ctx (titled (js ''Plan''))
      = (Inr 8, snd (create sample_ctx (titled (js ''Plan''))))"
    by (simp add: prod_eq_iff create_eval_defs sample_defs)
  have fresh: "8 \<notin> fst ` set (tasks sample_ctx)"
    by (simp add: sample_defs)
  from created_task_is_pending [OF run] fresh run show ?thesis
    by (metis fst_conv option.simps(9))
qed

text \<open>
  C10, as stated, fails for calls that do not reach the due-date check: Alice's update
  of Bob's task 3 with a due date beyond the range fails with Forbidden, and her create
  with such a due date fails with RateLimited when the limiter refuses the call; neither
  fails with InvalidInput.
\<close>

theorem dueDate_check_comes_after_the_gates:
  "truthy (Finite 157680005001)
   \<and> \<not> isValidDueDate (now sample_ctx) (Finite 157680005001)
   \<and> authUser sample_ctx = Some alice
   \<and> getTaskById sample_ctx 3 = Some (sample_task bob Pending None)
   \<and> fst (update sample_ctx (postpone 3 (Finite 157680005001))) = Inl Forbidden
   \<and> \<not> ok (limiter limited_ctx CreateTaskBucket alice)
   \<and> fst (create limited_ctx (due (Finite 157680005001))) = Inl (RateLimited 2)"
  by (simp add: update_cases create_cases limited_ctx_def sample_defs due_def postpone_def
      getTaskById_def db_get_def isValidDueDate_def rate_limit_error_def ceil_seconds_def)

text \<open>
  C10, amended. With an authenticated caller and an admitted call (and, for \<open>update\<close>, a
  target the caller owns), a due date that \<open>create\<close> receives and that is a number other
  than 0 and NaN, or any due date that \<open>update\<close> receives, must lie between 24 hours
  (86400000 ms) before the current time and 5 * 365 days (157680000000 ms) after it,
  both bounds included: outside that range the operation fails with InvalidInput, and
  the due-date error is returned only for a supplied due date outside the range. The
  last conjunct reads the range for a finite due date.
\<close>

theorem dueDate_range_enforced:
  assumes "authUser c = Some uid"
  shows "(\<forall>d. ok (limiter c CreateTaskBucket uid) \<and> ca_dueDate ca = Some d \<and> truthy d
            \<and> \<not> (number_ge d (now c - 86400000) \<and> number_le d (now c + 157680000000)) \<longrightarrow>
            (\<exists>k. fst (create c ca) = Inl (InvalidInput k)))
    \<and> (fst (create c ca) = Inl (InvalidInput DueDateRange) \<longrightarrow>
          (\<exists>d. ca_dueDate ca = Some d \<and> truthy d
             \<and> \<not> (number_ge d (now c - 86400000) \<and> number_le d (now c + 157680000000))))
    \<and> (\<forall>d t. ok (limiter c UpdateTaskBucket uid) \<and> getTaskById c (ua_id ua) = Some t
            \<and> task_userId t = uid \<and> ua_dueDate ua = Some d
            \<and> \<not> (number_ge d (now c - 86400000) \<and> number_le d (now c + 157680000000)) \<longrightarrow>
            (\<exists>k. fst (update c ua) = Inl (InvalidInput k)))
    \<and> (fst (update c ua) = Inl (InvalidInput DueDateRange) \<longrightarrow>
          (\<exists>d. ua_dueDate ua = Some d
             \<and> \<not> (number_ge d (now c - 86400000) \<and> number_le d (now c + 157680000000))))
    \<and> (\<forall>r. (number_ge (Finite r) (now c - 86400000)
               \<and> number_le (Finite r) (now c + 157680000000))
            = (real_of_int (now c) - 86400000 \<le> r \<and> r \<le> real_of_int (now c) + 157680000000))"
proof -
  have range: "isValidDueDate t0 d
      \<longleftrightarrow> number_ge d (t0 - 86400000) \<and> number_le d (t0 + 157680000000)" for t0 d
    by (simp add: isValidDueDate_def)
  have create_fails: "\<exists>k. fst (create c ca) = Inl (InvalidInput k)"
    if "ok (limiter c CreateTaskBucket uid)" "ca_dueDate ca = Some d" "truthy d"
      "\<not> (number_ge d (now c - 86400000) \<and> number_le d (now c + 157680000000))" for d
    using assms that by (simp add: create_cases truthy_number_def range)
  have create_error: "\<exists>d. ca_dueDate ca = Some d \<and> truthy d
             \<and> \<not> (number_ge d (now c - 86400000) \<and> number_le d (now c + 157680000000))"
    if "fst (create c ca) = Inl (InvalidInput DueDateRange)"
    using assms that
    by (auto simp: create_cases truthy_number_def range rate_limit_error_def
        split: if_splits option.splits)
  have update_fails: "\<exists>k. fst (update c ua) = Inl (InvalidInput k)"
    if adm: "ok (limiter c UpdateTaskBucket uid)" and t: "getTaskById c (ua_id ua) = Some t"
      and own: "task_userId t = uid" and d: "ua_dueDate ua = Some d"
      and out: "\<not> (number_ge d (now c - 86400000) \<and> number_le d (now c + 157680000000))"
    for d t
  proof -
    have "\<not> isValidDueDate (now c) d"
      using out by (simp add: range)
    from build_updates_dueDate_invalid [OF d this, of t]
    show ?thesis
      using update_owned [OF assms adm t own] by auto
  qed
  have update_error: "\<exists>d. ua_dueDate ua = Some d
             \<and> \<not> (number_ge d (now c - 86400000) \<and> number_le d (now c + 157680000000))"
    if "fst (update c ua) = Inl (InvalidInput DueDateRange)"
    using update_invalid_input [OF that] build_updates_dueDate_error
    by (fastforce simp: range)
  have finite: "(number_ge (Finite r) (now c - 86400000)
               \<and> number_le (Finite r) (now c + 157680000000))
            = (real_of_int (now c) - 86400000 \<le> r \<and> r \<le> real_of_int (now c) + 157680000000)"
    for r
    by simp
  show ?thesis
    using create_fails create_error update_fails update_error finite by blast
qed

theorem dueDate_range_enforced_witness:
  "authUser sample_ctx = Some alice
   \<and> now sample_ctx = 5000
   \<and> fst (create sample_ctx (due (Finite 157680005001))) = Inl (InvalidInput DueDateRange)
   \<and> fst (create sample_ctx (due (Finite 157680005000))) = Inr 8
   \<and> fst (create sample_ctx (due (Finite (- 86395001)))) = Inl (InvalidInput DueDateRange)
   \<and> fst (create sample_ctx (due (Finite (- 86395000)))) = Inr 8
   \<and> fst (create sample_ctx (due PosInfinity)) = Inl (InvalidInput DueDateRange)
   \<and> fst (update sample_ctx (postpone 1 (Finite 157680005001)))
       = Inl (InvalidInput DueDateRange)"
proof -
  have auth: "authUser sample_ctx = Some alice"
    and clock: "now sample_ctx = 5000"
    and adm: "ok (limiter sample_ctx CreateTaskBucket alice)"
      "ok (limiter sample_ctx UpdateTaskBucket alice)"
    and task: "getTaskById sample_ctx 1 = Some (sample_task alice Pending None)"
    and own: "task_userId (sample_task alice Pending None) = alice"
    by (simp_all add: sample_defs getTaskById_def db_get_def)
  have "\<exists>k. fst (create sample_ctx (due (Finite 157680005001))) = Inl (InvalidInput k)"
    using dueDate_range_enforced
      [OF auth, of "due (Finite 157680005001)" "postpone 1 (Finite 157680005001)"]
      adm clock
    by (simp add: due_def)
  moreover have "\<exists>k. fst (update sample_ctx (postpone 1 (Finite 157680005001)))
      = Inl (InvalidInput k)"
    using dueDate_range_enforced
      [OF auth, of "due (Finite 157680005001)" "postpone 1 (Finite 157680005001)"]
      adm clock task own
    by (simp add: postpone_def)
  moreover have
    "fst (create sample_ctx (due (Finite 157680005001))) = Inl (InvalidInput DueDateRange)"
    "fst (create sample_ctx (due (Finite 157680005000))) = Inr 8"
    "fst (create sample_ctx (due (Finite (- 86395001)))) = Inl (InvalidInput DueDateRange)"
    "fst (create sample_ctx (due (Finite (- 86395000)))) = Inr 8"
    "fst (create sample_ctx (due PosInfinity)) = Inl (InvalidInput DueDateRange)"
    by (simp_all add: create_eval_defs sample_defs due_def)
  moreover have "fst (update sample_ctx (postpone 1 (Finite 157680005001)))
      = Inl (InvalidInput DueDateRange)"
    by (simp add: update_cases sample_defs task_store_defs isValidDueDate_def postpone_def)
  ultimately show ?thesis
    using auth clock by simp
qed

text \<open>
  Outside the amended claim: \<open>create\<close> tests the due date for truthiness before it
  checks the range, so it skips the check for NaN, which is outside the range, and
  stores the task; \<open>update\<close>, which tests for \<open>undefined\<close>, rejects the same value.
\<close>

lemma create_skips_range_check_on_NaN:
  "\<not> isValidDueDate (now sample_ctx) NaN
   \<and> fst (create sample_ctx (due NaN)) = Inr 8
   \<and> map_option task_dueDate (getTaskById (snd (create sample_ctx (due NaN))) 8)
       = Some (Some NaN)
   \<and> fst (update sample_ctx (postpone 1 NaN)) = Inl (InvalidInput DueDateRange)"
proof -
  have "fst (create sample_ctx (due NaN)) = Inr 8"
    "map_option task_dueDate (getTaskById (snd (create sample_ctx (due NaN))) 8)
       = Some (Some NaN)"
    by (simp_all add: create_eval_defs sample_defs due_def getTaskById_def db_get_def)
  moreover have "fst (update sample_ctx (postpone 1 NaN)) = Inl (InvalidInput DueDateRange)"
    "\<not> isValidDueDate (now sample_ctx) NaN"
    by (simp_all add: update_cases sample_defs task_store_defs isValidDueDate_def postpone_def)
  ultimately show ?thesis by simp
qed

end
